theory Spec2Isabelle
  imports Main "HOL-Library.Char_ord" "HOL-Library.List_Lexorder" "HOL-Library.Multiset"
begin

section \<open>Data model\<close>

text \<open>
  Calendar dates and timestamps. A JavaScript \<^verbatim>\<open>Date\<close> holds a time value in
  milliseconds; the planner builds its due dates at local midnight
  (\<^verbatim>\<open>new Date(year, month - 1, day, 0, 0, 0, 0)\<close>), so a due date is modelled by its day
  number (whole days since 1970-01-01), and \<^verbatim>\<open>createdAt\<close>/\<^verbatim>\<open>completedAt\<close>
  (ISO timestamps) by their time value in milliseconds. The clock reading \<open>now\<close> is a
  local time value, which the day predicates cut into days. Where an instant is compared
  with a local time (the cutoff of the completed view) the zone offset is a parameter;
  elsewhere the offset is taken as zero, so that a clock reading is also an instant.
\<close>

type_synonym date = int
type_synonym timestamp = int

text \<open>\<^verbatim>\<open>recurrenceData\<close> is \<^verbatim>\<open>null\<close> or the object \<^verbatim>\<open>{ weekdays }\<close>.\<close>

record recurrenceData =
  weekdays :: "int list"

text \<open>
  The task object of \<^verbatim>\<open>models/Task.js\<close> and \<^verbatim>\<open>TaskController.addTask\<close>.
  \<^verbatim>\<open>dueDate\<close> is the empty string (\<open>None\<close>) or a \<^verbatim>\<open>YYYY-MM-DD\<close> string of a
  calendar date, as the date input and \<^verbatim>\<open>formatDateISO\<close> write it, held here as the
  day it denotes. Fields that are \<^verbatim>\<open>null\<close> or a value are options.
\<close>

record task =
  task_id :: string
  title :: string
  description :: string
  category :: string
  tags :: "string list"
  priority :: string
  dueDate :: "date option"
  dueTime :: string
  completed :: bool
  createdAt :: timestamp
  completedAt :: "timestamp option"
  isRecurring :: bool
  recurrenceType :: "string option"
  recurrenceData :: "recurrenceData option"
  parentRecurringId :: "string option"

record category_rec =
  cat_id :: string
  cat_name :: string
  cat_color :: string

record tag_rec =
  tag_id :: string
  tag_name :: string
  tag_color :: string

text \<open>JavaScript truthiness of a value that is \<^verbatim>\<open>null\<close> or a string.\<close>

definition truthy :: "string option \<Rightarrow> bool" where
  "truthy v = (case v of None \<Rightarrow> False | Some s \<Rightarrow> s \<noteq> [])"

section \<open>String helpers\<close>

text \<open>
  Strings are lists of one-byte characters; case folding and white space are those of
  ASCII.
\<close>

definition toLowerChar :: "char \<Rightarrow> char" where
  "toLowerChar c =
     (let n = (of_char c :: nat) in if 65 \<le> n \<and> n \<le> 90 then char_of (n + 32) else c)"

definition toLowerCase :: "string \<Rightarrow> string" where
  "toLowerCase s = map toLowerChar s"

fun startsWith :: "'a list \<Rightarrow> 'a list \<Rightarrow> bool" where
  "startsWith xs [] = True"
| "startsWith [] (p # ps) = False"
| "startsWith (x # xs) (p # ps) = (x = p \<and> startsWith xs ps)"

text \<open>\<^verbatim>\<open>String.prototype.includes\<close>: the term occurs as a contiguous substring.\<close>

fun str_includes :: "'a list \<Rightarrow> 'a list \<Rightarrow> bool" where
  "str_includes [] t = (t = [])"
| "str_includes (x # xs) t = (startsWith (x # xs) t \<or> str_includes xs t)"

text \<open>\<^verbatim>\<open>Array.prototype.join\<close> with a separator.\<close>

fun join :: "string \<Rightarrow> string list \<Rightarrow> string" where
  "join sep [] = []"
| "join sep [x] = x"
| "join sep (x # y # ys) = x @ sep @ join sep (y # ys)"

section \<open>DateUtils\<close>

definition msPerDay :: int where
  "msPerDay = 86400000"

text \<open>
  The proleptic Gregorian calendar on day numbers: the day number of a civil date and the
  civil date (year, month 1..12, day) of a day number.
\<close>

definition daysFromCivil :: "int \<Rightarrow> int \<Rightarrow> int \<Rightarrow> int" where
  "daysFromCivil y m d =
     (let y' = (if m \<le> 2 then y - 1 else y);
          era = y' div 400;
          yoe = y' - era * 400;
          doy = (153 * (if m > 2 then m - 3 else m + 9) + 2) div 5 + d - 1;
          doe = yoe * 365 + yoe div 4 - yoe div 100 + doy
      in era * 146097 + doe - 719468)"

definition civilFromDays :: "int \<Rightarrow> int \<times> int \<times> int" where
  "civilFromDays z =
     (let z' = z + 719468;
          era = z' div 146097;
          doe = z' - era * 146097;
          yoe = (doe - doe div 1460 + doe div 36524 - doe div 146096) div 365;
          doy = doe - (365 * yoe + yoe div 4 - yoe div 100);
          mp = (5 * doy + 2) div 153;
          d = doy - (153 * mp + 2) div 5 + 1;
          m = (if mp < 10 then mp + 3 else mp - 9)
      in (if m \<le> 2 then yoe + era * 400 + 1 else yoe + era * 400, m, d))"

text \<open>
  The \<^verbatim>\<open>Date\<close> accessors on a day number, after ECMAScript's abstract operations:
  \<^verbatim>\<open>MakeDay(year, month, date)\<close> is the day number of the first day of the (normalised)
  month plus \<^verbatim>\<open>date - 1\<close>, \<^verbatim>\<open>DateFromTime\<close> is the offset of a day from the first day
  of its month plus one, and \<^verbatim>\<open>WeekDay(t) = (Day(t) + 4) mod 7\<close> (0 is Sunday).
\<close>

definition getFullYear :: "date \<Rightarrow> int" where
  "getFullYear t = fst (civilFromDays t)"

definition getMonth :: "date \<Rightarrow> int" where
  "getMonth t = fst (snd (civilFromDays t)) - 1"

definition MakeDay :: "int \<Rightarrow> int \<Rightarrow> int \<Rightarrow> date" where
  "MakeDay year month dt =
     (let ym = year + month div 12; mn = month mod 12
      in daysFromCivil ym (mn + 1) 1 + dt - 1)"

definition getDate :: "date \<Rightarrow> int" where
  "getDate t = t - MakeDay (getFullYear t) (getMonth t) 1 + 1"

definition getDay :: "date \<Rightarrow> int" where
  "getDay t = (t + 4) mod 7"

definition setDate :: "date \<Rightarrow> int \<Rightarrow> date" where
  "setDate t dt = MakeDay (getFullYear t) (getMonth t) dt"

definition setMonth :: "date \<Rightarrow> int \<Rightarrow> date" where
  "setMonth t month = MakeDay (getFullYear t) month (getDate t)"

definition setFullYear :: "date \<Rightarrow> int \<Rightarrow> date" where
  "setFullYear t year = MakeDay year (getMonth t) (getDate t)"

text \<open>
  \<^verbatim>\<open>createLocalDate(dateString)\<close>: \<^verbatim>\<open>null\<close> for a falsy string, else the local date
  of the string. \<^verbatim>\<open>formatDateISO\<close> is its inverse on dates.
\<close>

definition createLocalDate :: "date option \<Rightarrow> date option" where
  "createLocalDate dateString = (case dateString of None \<Rightarrow> None | Some d \<Rightarrow> Some d)"

definition formatDateISO :: "date \<Rightarrow> date option" where
  "formatDateISO d = Some d"

text \<open>
  Relational operators on a \<^verbatim>\<open>Date\<close> or \<^verbatim>\<open>null\<close> compare time values, and
  \<^verbatim>\<open>null\<close> converts to 0.
\<close>

definition timeValue :: "date option \<Rightarrow> int" where
  "timeValue d = (case d of None \<Rightarrow> 0 | Some t \<Rightarrow> t)"

text \<open>\<^verbatim>\<open>const today = new Date(); today.setHours(0, 0, 0, 0)\<close> at the time \<open>now\<close>.\<close>

definition startOfToday :: "timestamp \<Rightarrow> date" where
  "startOfToday now = now div msPerDay"

definition isTaskDueToday :: "timestamp \<Rightarrow> task \<Rightarrow> bool" where
  "isTaskDueToday now t =
     (case createLocalDate (dueDate t) of
        None \<Rightarrow> False
      | Some taskDate \<Rightarrow> startOfToday now = taskDate)"

definition isTaskOverdue :: "timestamp \<Rightarrow> task \<Rightarrow> bool" where
  "isTaskOverdue now t =
     (if dueDate t = None \<or> completed t then False
      else case createLocalDate (dueDate t) of
        None \<Rightarrow> False
      | Some taskDate \<Rightarrow> taskDate < startOfToday now)"

definition isTaskUpcoming :: "timestamp \<Rightarrow> task \<Rightarrow> bool" where
  "isTaskUpcoming now t =
     (case createLocalDate (dueDate t) of
        None \<Rightarrow> False
      | Some taskDate \<Rightarrow>
          (let today = startOfToday now; nextWeek = setDate today (getDate today + 7)
           in taskDate > today \<and> taskDate \<le> nextWeek))"

definition addDays :: "date \<Rightarrow> int \<Rightarrow> date" where
  "addDays d days = setDate d (getDate d + days)"

definition addMonths :: "date \<Rightarrow> int \<Rightarrow> date" where
  "addMonths d months = setMonth d (getMonth d + months)"

definition addYears :: "date \<Rightarrow> int \<Rightarrow> date" where
  "addYears d years = setFullYear d (getFullYear d + years)"

text \<open>\<^verbatim>\<open>task.recurrenceData?.weekdays || []\<close>\<close>

definition weekdaysOf :: "task \<Rightarrow> int list" where
  "weekdaysOf t = (case recurrenceData t of None \<Rightarrow> [] | Some rd \<Rightarrow> weekdays rd)"

text \<open>
  \<^verbatim>\<open>DateUtils.calculateNextRecurrenceDate(task)\<close>. The \<^verbatim>\<open>for\<close> loop returns at the
  first selected weekday after the current one, which is \<open>find\<close> on the sorted list.
\<close>

definition calculateNextRecurrenceDate :: "task \<Rightarrow> date option" where
  "calculateNextRecurrenceDate t =
     (if dueDate t = None \<or> \<not> truthy (recurrenceType t) then None
      else case (createLocalDate (dueDate t), recurrenceType t) of
        (Some baseDate, Some rt) \<Rightarrow>
          (if rt = ''daily'' then Some (addDays baseDate 1)
           else if rt = ''weekly'' then
             (let wds = weekdaysOf t in
              if length wds = 0 then Some (addDays baseDate 7)
              else
                (let currentWeekday = getDay baseDate;
                     selectedWeekdays = sort wds
                 in case find (\<lambda>weekday. weekday > currentWeekday) selectedWeekdays of
                      Some weekday \<Rightarrow> Some (addDays baseDate (weekday - currentWeekday))
                    | None \<Rightarrow>
                        (let firstWeekday = hd selectedWeekdays;
                             daysToNextWeek = 7 - currentWeekday + firstWeekday
                         in Some (addDays baseDate daysToNextWeek))))
           else if rt = ''monthly'' then Some (addMonths baseDate 1)
           else if rt = ''yearly'' then Some (addYears baseDate 1)
           else None)
      | _ \<Rightarrow> None)"

subsection \<open>Recurrence on unchecked task data\<close>

text \<open>
  Task objects come from storage and from imported files, where \<^verbatim>\<open>dueDate\<close>,
  \<^verbatim>\<open>recurrenceType\<close> and \<^verbatim>\<open>recurrenceData\<close> are not checked, so
  \<^verbatim>\<open>calculateNextRecurrenceDate\<close> also meets values that the task record above cannot
  hold. The three properties it reads are modelled by what the function does with them.

  \<^item> \<^verbatim>\<open>dueDate\<close>: a falsy value; a non-empty string, held as the \<^verbatim>\<open>Date\<close> that
    \<^verbatim>\<open>new Date(year, month - 1, day, 0, 0, 0, 0)\<close> builds from its
    \<^verbatim>\<open>split('-').map(Number)\<close>, which is the Invalid Date when a part is \<^verbatim>\<open>NaN\<close> (as for
    an ISO timestamp, whose third part is not a number); or another truthy value (a
    number, \<^verbatim>\<open>true\<close>, an array, an object), which has no \<^verbatim>\<open>split\<close> method.
  \<^item> \<^verbatim>\<open>recurrenceType\<close>: a falsy value, a non-empty string, or another truthy value,
    which is \<^verbatim>\<open>===\<close> to no \<^verbatim>\<open>case\<close> label.
  \<^item> \<^verbatim>\<open>recurrenceData?.weekdays\<close>: a falsy value (also when \<^verbatim>\<open>recurrenceData\<close> is
    absent); an array, held as the numbers that \<^verbatim>\<open>map(Number)\<close> gives; or another truthy
    value (a string, a number, an object), which has no \<^verbatim>\<open>map\<close> method and of which
    only whether its \<^verbatim>\<open>length\<close> is \<^verbatim>\<open>0\<close> is read before.

  An array with an element that \<^verbatim>\<open>Number\<close> turns into \<^verbatim>\<open>NaN\<close> is outside this model:
  the order in which \<^verbatim>\<open>sort\<close> leaves it is implementation-defined.
\<close>

datatype jsDate = ValidDate date | InvalidDate

datatype jsError = TypeError

datatype jsDueDate = DueFalsy | DueString jsDate | DueOther

datatype jsRecurrenceType = TypeFalsy | TypeString string | TypeOther

datatype jsWeekdays = WeekdaysFalsy | WeekdaysArray "int list" | WeekdaysOther (lengthIsZero: bool)

record jsTask =
  js_dueDate :: jsDueDate
  js_recurrenceType :: jsRecurrenceType
  js_weekdays :: jsWeekdays

fun typeTruthy :: "jsRecurrenceType \<Rightarrow> bool" where
  "typeTruthy TypeFalsy = False"
| "typeTruthy (TypeString s) = (s \<noteq> [])"
| "typeTruthy TypeOther = True"

text \<open>
  \<^verbatim>\<open>createLocalDate\<close>: \<^verbatim>\<open>null\<close> for a falsy argument; \<^verbatim>\<open>dateString.split\<close> throws a
  \<^verbatim>\<open>TypeError\<close> when the argument is not a string.
\<close>

fun createLocalDate_unchecked :: "jsDueDate \<Rightarrow> jsError + jsDate option" where
  "createLocalDate_unchecked DueFalsy = Inr None"
| "createLocalDate_unchecked (DueString d) = Inr (Some d)"
| "createLocalDate_unchecked DueOther = Inl TypeError"

text \<open>
  \<^verbatim>\<open>addDays\<close>, \<^verbatim>\<open>addMonths\<close> and \<^verbatim>\<open>addYears\<close> on a \<^verbatim>\<open>Date\<close> that may be invalid: the
  getters of an Invalid Date give \<^verbatim>\<open>NaN\<close> and its setters leave it invalid.
\<close>

fun addDays_unchecked :: "jsDate \<Rightarrow> int \<Rightarrow> jsDate" where
  "addDays_unchecked (ValidDate d) days = ValidDate (addDays d days)"
| "addDays_unchecked InvalidDate days = InvalidDate"

fun addMonths_unchecked :: "jsDate \<Rightarrow> int \<Rightarrow> jsDate" where
  "addMonths_unchecked (ValidDate d) months = ValidDate (addMonths d months)"
| "addMonths_unchecked InvalidDate months = InvalidDate"

fun addYears_unchecked :: "jsDate \<Rightarrow> int \<Rightarrow> jsDate" where
  "addYears_unchecked (ValidDate d) years = ValidDate (addYears d years)"
| "addYears_unchecked InvalidDate years = InvalidDate"

text \<open>
  \<^verbatim>\<open>DateUtils.calculateNextRecurrenceDate(task)\<close> on such a task: \<open>Inl\<close> is the exception
  thrown, \<open>Inr None\<close> is \<^verbatim>\<open>null\<close>. In the \<^verbatim>\<open>weekly\<close> case \<^verbatim>\<open>weekdays.length === 0\<close> is
  tested before \<^verbatim>\<open>weekdays.map\<close> is called; with an Invalid Date \<^verbatim>\<open>getDay()\<close> is
  \<^verbatim>\<open>NaN\<close>, no weekday is greater, and \<^verbatim>\<open>addDays\<close> gets \<^verbatim>\<open>NaN\<close> days.
\<close>

definition calculateNextRecurrenceDate_unchecked :: "jsTask \<Rightarrow> jsError + jsDate option" where
  "calculateNextRecurrenceDate_unchecked task =
     (if js_dueDate task = DueFalsy \<or> \<not> typeTruthy (js_recurrenceType task) then Inr None
      else case createLocalDate_unchecked (js_dueDate task) of
        Inl e \<Rightarrow> Inl e
      | Inr None \<Rightarrow> Inr None
      | Inr (Some baseDate) \<Rightarrow>
          (case js_recurrenceType task of
             TypeString rt \<Rightarrow>
               (if rt = ''daily'' then Inr (Some (addDays_unchecked baseDate 1))
                else if rt = ''weekly'' then
                  (case js_weekdays task of
                     WeekdaysFalsy \<Rightarrow> Inr (Some (addDays_unchecked baseDate 7))
                   | WeekdaysOther emptyLength \<Rightarrow>
                       (if emptyLength then Inr (Some (addDays_unchecked baseDate 7))
                        else Inl TypeError)
                   | WeekdaysArray wds \<Rightarrow>
                       (if length wds = 0 then Inr (Some (addDays_unchecked baseDate 7))
                        else case baseDate of
                          InvalidDate \<Rightarrow> Inr (Some InvalidDate)
                        | ValidDate d \<Rightarrow>
                            (let currentWeekday = getDay d;
                                 selectedWeekdays = sort wds
                             in case find (\<lambda>weekday. weekday > currentWeekday) selectedWeekdays of
                                  Some weekday \<Rightarrow>
                                    Inr (Some (addDays_unchecked baseDate (weekday - currentWeekday)))
                                | None \<Rightarrow>
                                    (let firstWeekday = hd selectedWeekdays;
                                         daysToNextWeek = 7 - currentWeekday + firstWeekday
                                     in Inr (Some (addDays_unchecked baseDate daysToNextWeek))))))
                else if rt = ''monthly'' then Inr (Some (addMonths_unchecked baseDate 1))
                else if rt = ''yearly'' then Inr (Some (addYears_unchecked baseDate 1))
                else Inr None)
           | _ \<Rightarrow> Inr None))"

text \<open>A task record as such a task.\<close>

definition jsTaskOf :: "task \<Rightarrow> jsTask" where
  "jsTaskOf t =
     \<lparr>js_dueDate = (case dueDate t of None \<Rightarrow> DueFalsy | Some d \<Rightarrow> DueString (ValidDate d)),
      js_recurrenceType = (case recurrenceType t of None \<Rightarrow> TypeFalsy | Some s \<Rightarrow> TypeString s),
      js_weekdays = (case recurrenceData t of None \<Rightarrow> WeekdaysFalsy
                     | Some rd \<Rightarrow> WeekdaysArray (weekdays rd))\<rparr>"

text \<open>
  The terms of the specification: a task has a due date; its recurrence type is one of
  the four; its due date, when it has one, is the \<^verbatim>\<open>YYYY-MM-DD\<close> string of a calendar
  date and its weekdays are absent or an array.
\<close>

fun hasDueDate :: "jsDueDate \<Rightarrow> bool" where
  "hasDueDate DueFalsy = False"
| "hasDueDate (DueString d) = True"
| "hasDueDate DueOther = True"





section \<open>TaskFilter\<close>

record sortOptions =
  field :: string
  direction :: string

record taskFilter =
  currentFilter :: string
  currentCategoryFilter :: "string option"
  currentTagFilter :: "string option"
  sortOptions :: sortOptions
  completedTasksDays :: int

text \<open>
  The cutoff of the completed view: \<^verbatim>\<open>cutoffDate.setDate(cutoffDate.getDate() - days)\<close>
  moves the local calendar day and keeps the local time within the day. The
  \<^verbatim>\<open>Date\<close> then stands for the instant of that local time: the local time value less
  the zone offset \<open>tza\<close> in force at it (ECMAScript's \<^verbatim>\<open>UTC(t) = t - LocalTZA(t, false)\<close>),
  so a daylight-saving change between the two days moves the cutoff by the change.
\<close>

definition cutoffDate :: "(int \<Rightarrow> int) \<Rightarrow> timestamp \<Rightarrow> int \<Rightarrow> timestamp" where
  "cutoffDate tza now days =
     (let today = now div msPerDay;
          localTime = setDate today (getDate today - days) * msPerDay + now mod msPerDay
      in localTime - tza localTime)"

text \<open>\<^verbatim>\<open>new Date(task.completedAt || task.createdAt)\<close>, an instant.\<close>

definition completedDate :: "task \<Rightarrow> timestamp" where
  "completedDate t = (case completedAt t of Some c \<Rightarrow> c | None \<Rightarrow> createdAt t)"

definition applyStatusFilter ::
  "(int \<Rightarrow> int) \<Rightarrow> taskFilter \<Rightarrow> timestamp \<Rightarrow> task list \<Rightarrow> task list" where
  "applyStatusFilter tza f now tasks =
     (let filtered =
        (if currentFilter f = ''completed'' then
           (let done = filter completed tasks in
            if completedTasksDays f > 0 then
              filter (\<lambda>t. completedDate t \<ge> cutoffDate tza now (completedTasksDays f)) done
            else done)
         else if currentFilter f = ''recurring'' then filter isRecurring tasks
         else if currentFilter f = ''today'' then filter (isTaskDueToday now) tasks
         else if currentFilter f = ''upcoming'' then filter (isTaskUpcoming now) tasks
         else if currentFilter f = ''overdue'' then filter (isTaskOverdue now) tasks
         else tasks)
      in if currentFilter f \<noteq> ''completed'' then filter (\<lambda>t. \<not> completed t) filtered
         else filtered)"

definition applyPriorityFilter :: "taskFilter \<Rightarrow> task list \<Rightarrow> task list" where
  "applyPriorityFilter f tasks =
     (if currentFilter f \<in> set [''low'', ''medium'', ''high'']
      then filter (\<lambda>t. priority t = currentFilter f) tasks
      else tasks)"

definition matchesSearchTerm ::
  "task \<Rightarrow> string \<Rightarrow> category_rec list \<Rightarrow> tag_rec list \<Rightarrow> bool" where
  "matchesSearchTerm t searchTerm categories allTags =
     (let term = toLowerCase searchTerm;
          titleMatch = str_includes (toLowerCase (title t)) term;
          descriptionMatch = str_includes (toLowerCase (description t)) term;
          categoryMatch =
            (case find (\<lambda>cat. cat_id cat = category t) categories of
               None \<Rightarrow> False
             | Some cat \<Rightarrow> str_includes (toLowerCase (cat_name cat)) term);
          tagMatch =
            (if length (tags t) > 0 then
               (let taskTags =
                      List.map_filter (\<lambda>tagId. find (\<lambda>tag. tag_id tag = tagId) allTags) (tags t)
                in list_ex (\<lambda>tag. str_includes (toLowerCase (tag_name tag)) term) taskTags)
             else False)
      in titleMatch \<or> descriptionMatch \<or> categoryMatch \<or> tagMatch)"

text \<open>
  The values the comparator of \<^verbatim>\<open>sortTasks\<close> compares: numbers or strings, the same
  kind on both sides for a given field.
\<close>

datatype sortKey = KNum int | KStr string

definition priorityOrder :: "string \<Rightarrow> int" where
  "priorityOrder p =
     (if p = ''high'' then 3 else if p = ''medium'' then 2 else if p = ''low'' then 1 else 0)"

definition sortValue :: "string \<Rightarrow> category_rec list \<Rightarrow> tag_rec list \<Rightarrow> task \<Rightarrow> sortKey" where
  "sortValue fld categories allTags a =
     (if fld = ''title'' then KStr (toLowerCase (title a))
      else if fld = ''priority'' then KNum (priorityOrder (priority a))
      else if fld = ''status'' then KNum (if completed a then 1 else 0)
      else if fld = ''category'' then
        KStr (case find (\<lambda>cat. cat_id cat = category a) categories of
                Some cat \<Rightarrow> toLowerCase (cat_name cat)
              | None \<Rightarrow> [])
      else if fld = ''tags'' then
        KStr (join '','' (sort (map (\<lambda>tagId.
                case find (\<lambda>tg. tag_id tg = tagId) allTags of
                  Some tg \<Rightarrow> toLowerCase (tag_name tg)
                | None \<Rightarrow> []) (tags a))))
      else if fld = ''dueDate'' then
        KNum (case dueDate a of Some d \<Rightarrow> d * msPerDay | None \<Rightarrow> 0)
      else KNum (createdAt a))"

text \<open>\<^verbatim>\<open>aValue < bValue\<close> on two numbers or on two strings.\<close>

fun keyLess :: "sortKey \<Rightarrow> sortKey \<Rightarrow> bool" where
  "keyLess (KNum a) (KNum b) = (a < b)"
| "keyLess (KStr a) (KStr b) = (a < b)"
| "keyLess _ _ = False"

definition compareTasks ::
  "sortOptions \<Rightarrow> category_rec list \<Rightarrow> tag_rec list \<Rightarrow> task \<Rightarrow> task \<Rightarrow> int" where
  "compareTasks so categories allTags a b =
     (let aValue = sortValue (field so) categories allTags a;
          bValue = sortValue (field so) categories allTags b
      in if keyLess aValue bValue then (if direction so = ''asc'' then - 1 else 1)
         else if keyLess bValue aValue then (if direction so = ''asc'' then 1 else - 1)
         else 0)"

text \<open>
  \<^verbatim>\<open>Array.prototype.sort(compareFn)\<close> is a stable sort: an element goes before the first
  later element that the comparator does not put before it.
\<close>

fun insertBy :: "('a \<Rightarrow> 'a \<Rightarrow> int) \<Rightarrow> 'a \<Rightarrow> 'a list \<Rightarrow> 'a list" where
  "insertBy cmp x [] = [x]"
| "insertBy cmp x (y # ys) = (if cmp x y \<le> 0 then x # y # ys else y # insertBy cmp x ys)"

definition stableSort :: "('a \<Rightarrow> 'a \<Rightarrow> int) \<Rightarrow> 'a list \<Rightarrow> 'a list" where
  "stableSort cmp xs = foldr (insertBy cmp) xs []"

definition sortTasks ::
  "taskFilter \<Rightarrow> task list \<Rightarrow> category_rec list \<Rightarrow> tag_rec list \<Rightarrow> task list" where
  "sortTasks f tasks categories allTags =
     stableSort (compareTasks (sortOptions f) categories allTags) tasks"

text \<open>
  \<^verbatim>\<open>filterTasks\<close>: the status and priority filters, then the collected category, tag
  and search predicates one after the other, then the sort.
\<close>

definition activeFilters ::
  "taskFilter \<Rightarrow> category_rec list \<Rightarrow> tag_rec list \<Rightarrow> string \<Rightarrow> (task \<Rightarrow> bool) list" where
  "activeFilters f categories allTags searchTerm =
     (if truthy (currentCategoryFilter f)
      then [\<lambda>t. Some (category t) = currentCategoryFilter f] else [])
     @ (if truthy (currentTagFilter f)
        then [\<lambda>t. \<exists>x \<in> set (tags t). Some x = currentTagFilter f] else [])
     @ (if searchTerm \<noteq> []
        then [\<lambda>t. matchesSearchTerm t searchTerm categories allTags] else [])"

definition filterTasks ::
  "(int \<Rightarrow> int) \<Rightarrow> taskFilter \<Rightarrow> timestamp \<Rightarrow> task list \<Rightarrow> category_rec list
     \<Rightarrow> tag_rec list \<Rightarrow> string \<Rightarrow> task list" where
  "filterTasks tza f now tasks categories allTags searchTerm =
     (let filtered = applyStatusFilter tza f now tasks;
          filtered = applyPriorityFilter f filtered;
          filtered = foldl (\<lambda>acc p. filter p acc) filtered
                       (activeFilters f categories allTags searchTerm)
      in sortTasks f filtered categories allTags)"

section \<open>RenderController\<close>

text \<open>
  A JavaScript \<^verbatim>\<open>Map\<close> keyed by task id, in insertion order: \<^verbatim>\<open>set\<close> replaces the
  value of a key that is present and appends a new key; \<^verbatim>\<open>get\<close> is \<open>map_of\<close>.
\<close>

fun mapSet :: "string \<Rightarrow> 'v \<Rightarrow> (string \<times> 'v) list \<Rightarrow> (string \<times> 'v) list" where
  "mapSet k v [] = [(k, v)]"
| "mapSet k v ((k', v') # m) = (if k = k' then (k, v) # m else (k', v') # mapSet k v m)"

definition mapHas :: "string \<Rightarrow> (string \<times> 'v) list \<Rightarrow> bool" where
  "mapHas k m = (map_of m k \<noteq> None)"

text \<open>
  \<^verbatim>\<open>hasTaskChanged\<close>: \<^verbatim>\<open>relevantProps.some(...)\<close> in the order of the array. The tag
  arrays are compared by the JSON text of their sorted copies, the recurrence data by
  its JSON text, every other property by \<^verbatim>\<open>!==\<close>. (\<^verbatim>\<open>sort()\<close> also leaves both
  tag arrays sorted; the result of the comparison does not depend on that.)
\<close>

definition hasTaskChanged :: "task \<Rightarrow> task \<Rightarrow> bool" where
  "hasTaskChanged currentTask lastTask =
     (title currentTask \<noteq> title lastTask
      \<or> description currentTask \<noteq> description lastTask
      \<or> completed currentTask \<noteq> completed lastTask
      \<or> priority currentTask \<noteq> priority lastTask
      \<or> category currentTask \<noteq> category lastTask
      \<or> sort (tags currentTask) \<noteq> sort (tags lastTask)
      \<or> dueDate currentTask \<noteq> dueDate lastTask
      \<or> dueTime currentTask \<noteq> dueTime lastTask
      \<or> isRecurring currentTask \<noteq> isRecurring lastTask
      \<or> recurrenceType currentTask \<noteq> recurrenceType lastTask
      \<or> recurrenceData currentTask \<noteq> recurrenceData lastTask)"

text \<open>
  The comparison as the specification words it: the tags compared as sets, every other
  tracked field for equality.
\<close>

definition trackedFieldsDiffer :: "task \<Rightarrow> task \<Rightarrow> bool" where
  "trackedFieldsDiffer a b =
     (title a \<noteq> title b \<or> description a \<noteq> description b \<or> completed a \<noteq> completed b
      \<or> priority a \<noteq> priority b \<or> category a \<noteq> category b \<or> set (tags a) \<noteq> set (tags b)
      \<or> dueDate a \<noteq> dueDate b \<or> dueTime a \<noteq> dueTime b \<or> isRecurring a \<noteq> isRecurring b
      \<or> recurrenceType a \<noteq> recurrenceType b \<or> recurrenceData a \<noteq> recurrenceData b)"

text \<open>
  The comparison as the code makes it, in the specification's terms: the tags compared
  as multisets (in any order, repetitions counted), every other tracked field for
  equality.
\<close>

definition trackedFieldsDifferCounted :: "task \<Rightarrow> task \<Rightarrow> bool" where
  "trackedFieldsDifferCounted a b =
     (title a \<noteq> title b \<or> description a \<noteq> description b \<or> completed a \<noteq> completed b
      \<or> priority a \<noteq> priority b \<or> category a \<noteq> category b \<or> mset (tags a) \<noteq> mset (tags b)
      \<or> dueDate a \<noteq> dueDate b \<or> dueTime a \<noteq> dueTime b \<or> isRecurring a \<noteq> isRecurring b
      \<or> recurrenceType a \<noteq> recurrenceType b \<or> recurrenceData a \<noteq> recurrenceData b)"

text \<open>The last task of a list that carries a given id.\<close>

definition lastWithId :: "task list \<Rightarrow> string \<Rightarrow> task option" where
  "lastWithId ts k = find (\<lambda>t. task_id t = k) (rev ts)"

record patch =
  addedTasks :: "task list"
  modifiedTasks :: "task list"
  removedTaskIds :: "string list"

text \<open>\<^verbatim>\<open>tasks.forEach(task => currentTasks.set(task.id, task))\<close>\<close>

definition buildCurrentTasks :: "task list \<Rightarrow> (string \<times> task) list" where
  "buildCurrentTasks tasks = foldl (\<lambda>m t. mapSet (task_id t) t m) [] tasks"

text \<open>
  The three lists of \<^verbatim>\<open>renderTasks\<close>: the two \<^verbatim>\<open>forEach\<close> loops push, in map order,
  the entries that pass their test.
\<close>

definition diffTasks :: "(string \<times> task) list \<Rightarrow> (string \<times> task) list \<Rightarrow> patch" where
  "diffTasks lastRendered currentTasks =
     \<lparr>addedTasks =
        map snd (filter (\<lambda>(taskId, t). map_of lastRendered taskId = None) currentTasks),
      modifiedTasks =
        map snd (filter (\<lambda>(taskId, t).
          case map_of lastRendered taskId of
            None \<Rightarrow> False
          | Some lastTask \<Rightarrow> hasTaskChanged t lastTask) currentTasks),
      removedTaskIds =
        map fst (filter (\<lambda>(taskId, t). \<not> mapHas taskId currentTasks) lastRendered)\<rparr>"

text \<open>
  The view: the children of the \<^verbatim>\<open>#taskList\<close> element, each with its
  \<^verbatim>\<open>data-task-id\<close> (none for the empty-state block) and its HTML.
\<close>

datatype node = Node (nodeTaskId: "string option") (nodeHTML: string)

datatype exn = TemplateError | SelectorSyntaxError

text \<open>
  The collaborators of the controller: the template functions of \<^verbatim>\<open>TaskRenderer\<close>
  (\<open>None\<close> when \<^verbatim>\<open>createTaskHTML\<close> throws) and whether
  \<^verbatim>\<open>querySelector('[data-task-id="' + id + '"]')\<close> throws for an id.
\<close>

record renderEnv =
  createTaskHTML :: "task \<Rightarrow> category_rec list \<Rightarrow> tag_rec list \<Rightarrow> string option"
  getEmptyStateHTML :: "string \<Rightarrow> string"
  selectorThrows :: "string \<Rightarrow> bool"

record renderController =
  lastRenderedTasks :: "(string \<times> task) list"
  taskListElement :: "node list option"

definition defaultEmptyMessage :: string where
  "defaultEmptyMessage = ''Nenhuma tarefa encontrada''"

definition innerHTML :: "node list \<Rightarrow> string" where
  "innerHTML nodes = concat (map nodeHTML nodes)"

text \<open>
  \<^verbatim>\<open>TaskRenderer.renderTasks\<close>: returns at once without a list element, shows the empty
  state for no tasks, else replaces the content by the HTML of all tasks. The second
  component is the exception thrown, if any; the view is then as it was.
\<close>

definition rendererRenderTasks ::
  "renderEnv \<Rightarrow> node list option \<Rightarrow> task list \<Rightarrow> category_rec list \<Rightarrow> tag_rec list \<Rightarrow> string
     \<Rightarrow> node list option \<times> exn option" where
  "rendererRenderTasks env taskList tasks categories allTags emptyMessage =
     (case taskList of
        None \<Rightarrow> (None, None)
      | Some nodes \<Rightarrow>
          if tasks = [] then (Some [Node None (getEmptyStateHTML env emptyMessage)], None)
          else
            (case those (map (\<lambda>t. createTaskHTML env t categories allTags) tasks) of
               None \<Rightarrow> (Some nodes, Some TemplateError)
             | Some htmls \<Rightarrow>
                 (Some (map (\<lambda>(t, h). Node (Some (task_id t)) h) (zip tasks htmls)),
                  None)))"

fun removeNode :: "string \<Rightarrow> node list \<Rightarrow> node list" where
  "removeNode taskId [] = []"
| "removeNode taskId (n # ns) =
     (if nodeTaskId n = Some taskId then ns else n # removeNode taskId ns)"

fun replaceNode :: "string \<Rightarrow> node \<Rightarrow> node list \<Rightarrow> node list" where
  "replaceNode taskId new [] = []"
| "replaceNode taskId new (n # ns) =
     (if nodeTaskId n = Some taskId then new # ns else n # replaceNode taskId new ns)"

text \<open>The three steps of the \<^verbatim>\<open>try\<close> block of \<^verbatim>\<open>applyIncrementalUpdates\<close>.\<close>

fun removeDeleted :: "renderEnv \<Rightarrow> string list \<Rightarrow> node list \<Rightarrow> node list \<times> exn option" where
  "removeDeleted env [] nodes = (nodes, None)"
| "removeDeleted env (taskId # rest) nodes =
     (if selectorThrows env taskId then (nodes, Some SelectorSyntaxError)
      else removeDeleted env rest (removeNode taskId nodes))"

fun updateModified ::
  "renderEnv \<Rightarrow> category_rec list \<Rightarrow> tag_rec list \<Rightarrow> task list \<Rightarrow> node list
     \<Rightarrow> node list \<times> exn option" where
  "updateModified env categories allTags [] nodes = (nodes, None)"
| "updateModified env categories allTags (t # rest) nodes =
     (if selectorThrows env (task_id t) then (nodes, Some SelectorSyntaxError)
      else if list_ex (\<lambda>n. nodeTaskId n = Some (task_id t)) nodes then
        (case createTaskHTML env t categories allTags of
           None \<Rightarrow> (nodes, Some TemplateError)
         | Some html \<Rightarrow>
             updateModified env categories allTags rest
               (replaceNode (task_id t) (Node (Some (task_id t)) html) nodes))
      else updateModified env categories allTags rest nodes)"

definition appendAdded ::
  "renderEnv \<Rightarrow> category_rec list \<Rightarrow> tag_rec list \<Rightarrow> task list \<Rightarrow> node list
     \<Rightarrow> node list \<times> exn option" where
  "appendAdded env categories allTags added nodes =
     (if length added > 0 then
        (let nodes' = (if str_includes (innerHTML nodes) ''Nenhuma tarefa encontrada''
                       then [] else nodes)
         in case those (map (\<lambda>t. createTaskHTML env t categories allTags) added) of
              None \<Rightarrow> (nodes', Some TemplateError)
            | Some htmls \<Rightarrow>
                (nodes' @ map (\<lambda>(t, h). Node (Some (task_id t)) h) (zip added htmls), None))
      else (nodes, None))"

text \<open>
  \<^verbatim>\<open>applyIncrementalUpdates\<close>: the \<^verbatim>\<open>try\<close> block stops at the first exception; its
  \<^verbatim>\<open>catch\<close> renders \<^verbatim>\<open>[...addedTasks, ...modifiedTasks]\<close> through the renderer, and an
  exception of that call leaves the method.
\<close>

definition applyIncrementalUpdates ::
  "renderEnv \<Rightarrow> node list \<Rightarrow> task list \<Rightarrow> task list \<Rightarrow> string list
     \<Rightarrow> category_rec list \<Rightarrow> tag_rec list \<Rightarrow> node list option \<times> exn option" where
  "applyIncrementalUpdates env nodes added modified removedIds categories allTags =
     (let (nodes1, e1) = removeDeleted env removedIds nodes;
          (nodes2, e2) = (if e1 = None then updateModified env categories allTags modified nodes1
                          else (nodes1, e1));
          (nodes3, e3) = (if e2 = None then appendAdded env categories allTags added nodes2
                          else (nodes2, e2))
      in if e3 = None then (Some nodes3, None)
         else rendererRenderTasks env (Some nodes3) (added @ modified) categories allTags
                defaultEmptyMessage)"

text \<open>
  \<^verbatim>\<open>RenderController.renderTasks\<close>. The second component is the exception that leaves
  the method (one thrown by the renderer inside the outer \<^verbatim>\<open>catch\<close>).
\<close>

definition renderTasks ::
  "renderEnv \<Rightarrow> renderController \<Rightarrow> task list \<Rightarrow> category_rec list \<Rightarrow> tag_rec list \<Rightarrow> string
     \<Rightarrow> renderController \<times> exn option" where
  "renderTasks env rc tasks categories allTags emptyMessage =
     (case taskListElement rc of
        None \<Rightarrow>
          (let (el, e) = rendererRenderTasks env None tasks categories allTags emptyMessage
           in (rc\<lparr>taskListElement := el\<rparr>, e))
      | Some nodes \<Rightarrow>
          if length tasks = 0 then
            (rc\<lparr>taskListElement := Some [Node None (getEmptyStateHTML env emptyMessage)],
                lastRenderedTasks := []\<rparr>, None)
          else
            (let currentTasks = buildCurrentTasks tasks;
                 p = diffTasks (lastRenderedTasks rc) currentTasks;
                 (el, e) = applyIncrementalUpdates env nodes (addedTasks p) (modifiedTasks p)
                             (removedTaskIds p) categories allTags
             in if e = None then
                  (rc\<lparr>taskListElement := el, lastRenderedTasks := currentTasks\<rparr>, None)
                else
                  (let (el', e') = rendererRenderTasks env el tasks categories allTags emptyMessage
                   in if e' = None then (rc\<lparr>taskListElement := el', lastRenderedTasks := []\<rparr>, None)
                      else (rc\<lparr>taskListElement := el'\<rparr>, e'))))"

section \<open>Task model and validation\<close>

text \<open>\<^verbatim>\<open>Task.addTag\<close>: the task after the call and the value returned.\<close>

definition addTag :: "task \<Rightarrow> string \<Rightarrow> task \<times> bool" where
  "addTag t tagId =
     (if tagId \<notin> set (tags t) \<and> length (tags t) < 3
      then (t\<lparr>tags := tags t @ [tagId]\<rparr>, True)
      else (t, False))"

definition isSpace :: "char \<Rightarrow> bool" where
  "isSpace c = (c \<in> set [CHR '' '', CHR 0x09, CHR 0x0A, CHR 0x0B, CHR 0x0C, CHR 0x0D])"

definition trim :: "string \<Rightarrow> string" where
  "trim s = rev (dropWhile isSpace (rev (dropWhile isSpace s)))"

definition isDigit :: "char \<Rightarrow> bool" where
  "isDigit c = (let n = (of_char c :: nat) in 48 \<le> n \<and> n \<le> 57)"

datatype fieldName = TaskTitle | TaskDescription

datatype validationError =
  Required fieldName | TooShort fieldName nat | TooLong fieldName nat | DateInPast
  | InvalidTime | TooManyTags | RecurringNeedsDueDate

definition validateRequired :: "string \<Rightarrow> fieldName \<Rightarrow> validationError option" where
  "validateRequired v fld = (if v = [] \<or> trim v = [] then Some (Required fld) else None)"

definition validateLength ::
  "string \<Rightarrow> nat \<Rightarrow> nat \<Rightarrow> fieldName \<Rightarrow> validationError option" where
  "validateLength v minLength maxLength fld =
     (if v = [] then None
      else if length (trim v) < minLength then Some (TooShort fld minLength)
      else if length (trim v) > maxLength then Some (TooLong fld maxLength)
      else None)"

text \<open>
  \<^verbatim>\<open>validateDate\<close>: a due date of the model always denotes a date, so the
  \<^verbatim>\<open>isNaN\<close> branch has no counterpart.
\<close>

definition validateDate :: "timestamp \<Rightarrow> date option \<Rightarrow> bool \<Rightarrow> validationError option" where
  "validateDate now dateString allowPast =
     (case dateString of
        None \<Rightarrow> None
      | Some d \<Rightarrow> if \<not> allowPast \<and> d < startOfToday now then Some DateInPast else None)"

text \<open>The test of \<^verbatim>\<open>/^([01]?[0-9]|2[0-3]):[0-5][0-9]$/\<close>.\<close>

definition timeRegexTest :: "string \<Rightarrow> bool" where
  "timeRegexTest s =
     (case s of
        [h, c, m1, m2] \<Rightarrow>
          isDigit h \<and> c = CHR '':'' \<and> m1 \<in> set ''012345'' \<and> isDigit m2
      | [h1, h2, c, m1, m2] \<Rightarrow>
          ((h1 \<in> set ''01'' \<and> isDigit h2) \<or> (h1 = CHR ''2'' \<and> h2 \<in> set ''0123''))
          \<and> c = CHR '':'' \<and> m1 \<in> set ''012345'' \<and> isDigit m2
      | _ \<Rightarrow> False)"

definition validateTime :: "string \<Rightarrow> validationError option" where
  "validateTime timeString =
     (if timeString = [] then None
      else if \<not> timeRegexTest timeString then Some InvalidTime
      else None)"

text \<open>
  \<^verbatim>\<open>ValidationUtils.validateTask\<close>: the errors collected in the order of the checks;
  \<^verbatim>\<open>isValid\<close> is that there is none.
\<close>

definition validateTask :: "timestamp \<Rightarrow> task \<Rightarrow> validationError list" where
  "validateTask now t =
     List.map_filter (\<lambda>x. x)
       [validateRequired (title t) TaskTitle,
        validateLength (title t) 1 100 TaskTitle,
        (if description t \<noteq> [] then validateLength (description t) 0 500 TaskDescription
         else None),
        validateDate now (dueDate t) True,
        validateTime (dueTime t),
        (if length (tags t) > 3 then Some TooManyTags else None),
        (if isRecurring t \<and> dueDate t = None then Some RecurringNeedsDueDate else None)]"

definition isValid :: "validationError list \<Rightarrow> bool" where
  "isValid errors = (length errors = 0)"

section \<open>TaskController\<close>

text \<open>
  The \<^verbatim>\<open>taskData\<close> object passed to \<^verbatim>\<open>addTask\<close> and \<^verbatim>\<open>updateTask\<close>: every property
  may be absent (\<open>None\<close>).
\<close>

record taskData =
  d_id :: "string option"
  d_title :: "string option"
  d_description :: "string option"
  d_category :: "string option"
  d_tags :: "string list option"
  d_priority :: "string option"
  d_dueDate :: "date option option"
  d_dueTime :: "string option"
  d_completed :: "bool option"
  d_createdAt :: "timestamp option"
  d_completedAt :: "timestamp option option"
  d_isRecurring :: "bool option"
  d_recurrenceType :: "string option option"
  d_recurrenceData :: "recurrenceData option option"
  d_parentRecurringId :: "string option option"

datatype toast = TaskSaved | TaskUpdated | ValidationErrorToast

text \<open>
  The controller with its collaborators' state: the task array, what the storage
  service last saved, the toasts shown, and how many ids \<^verbatim>\<open>IdGenerator\<close> has handed
  out. \<^verbatim>\<open>IdGenerator.generateTaskId()\<close> (time and random digits) is a parameter
  \<open>genId\<close> from the draw number to the id.
\<close>

record taskController =
  tasks :: "task list"
  storage :: "task list"
  toasts :: "toast list"
  idsDrawn :: nat

definition saveTasks :: "taskController \<Rightarrow> taskController" where
  "saveTasks c = c\<lparr>storage := tasks c\<rparr>"

text \<open>\<^verbatim>\<open>x || dflt\<close> on a property that is absent or a string.\<close>

definition orElse :: "string option \<Rightarrow> string \<Rightarrow> string" where
  "orElse v dflt = (case v of None \<Rightarrow> dflt | Some s \<Rightarrow> if s = [] then dflt else s)"

definition orNull :: "string option option \<Rightarrow> string option" where
  "orNull v = (case v of Some (Some s) \<Rightarrow> if s = [] then None else Some s | _ \<Rightarrow> None)"

definition addTask ::
  "(nat \<Rightarrow> string) \<Rightarrow> timestamp \<Rightarrow> taskController \<Rightarrow> taskData \<Rightarrow> bool
     \<Rightarrow> taskController \<times> bool" where
  "addTask genId now c taskData silent =
     (let c1 = c\<lparr>idsDrawn := Suc (idsDrawn c)\<rparr>;
          t = \<lparr>task_id = genId (idsDrawn c),
               title = orElse (d_title taskData) [],
               description = orElse (d_description taskData) [],
               category = orElse (d_category taskData) ''personal'',
               tags = (case d_tags taskData of None \<Rightarrow> [] | Some tg \<Rightarrow> tg),
               priority = orElse (d_priority taskData) ''medium'',
               dueDate = (case d_dueDate taskData of Some (Some d) \<Rightarrow> Some d | _ \<Rightarrow> None),
               dueTime = orElse (d_dueTime taskData) [],
               completed = (case d_completed taskData of None \<Rightarrow> False | Some b \<Rightarrow> b),
               createdAt = now,
               completedAt = None,
               isRecurring = (case d_isRecurring taskData of None \<Rightarrow> False | Some b \<Rightarrow> b),
               recurrenceType = orNull (d_recurrenceType taskData),
               recurrenceData = (case d_recurrenceData taskData of Some (Some r) \<Rightarrow> Some r | _ \<Rightarrow> None),
               parentRecurringId = orNull (d_parentRecurringId taskData)\<rparr>
      in if trim (title t) = [] then (c1\<lparr>toasts := toasts c1 @ [ValidationErrorToast]\<rparr>, False)
         else
           (let c2 = saveTasks (c1\<lparr>tasks := tasks c1 @ [t]\<rparr>)
            in (if \<not> silent then c2\<lparr>toasts := toasts c2 @ [TaskSaved]\<rparr> else c2, True)))"

fun findIndex :: "('a \<Rightarrow> bool) \<Rightarrow> 'a list \<Rightarrow> nat option" where
  "findIndex P [] = None"
| "findIndex P (x # xs) = (if P x then Some 0 else map_option Suc (findIndex P xs))"

text \<open>The object spread \<^verbatim>\<open>{ ...old, ...taskData }\<close>: a property that is present wins.\<close>

definition spread :: "task \<Rightarrow> taskData \<Rightarrow> task" where
  "spread old d =
     \<lparr>task_id = (case d_id d of None \<Rightarrow> task_id old | Some v \<Rightarrow> v),
      title = (case d_title d of None \<Rightarrow> title old | Some v \<Rightarrow> v),
      description = (case d_description d of None \<Rightarrow> description old | Some v \<Rightarrow> v),
      category = (case d_category d of None \<Rightarrow> category old | Some v \<Rightarrow> v),
      tags = (case d_tags d of None \<Rightarrow> tags old | Some v \<Rightarrow> v),
      priority = (case d_priority d of None \<Rightarrow> priority old | Some v \<Rightarrow> v),
      dueDate = (case d_dueDate d of None \<Rightarrow> dueDate old | Some v \<Rightarrow> v),
      dueTime = (case d_dueTime d of None \<Rightarrow> dueTime old | Some v \<Rightarrow> v),
      completed = (case d_completed d of None \<Rightarrow> completed old | Some v \<Rightarrow> v),
      createdAt = (case d_createdAt d of None \<Rightarrow> createdAt old | Some v \<Rightarrow> v),
      completedAt = (case d_completedAt d of None \<Rightarrow> completedAt old | Some v \<Rightarrow> v),
      isRecurring = (case d_isRecurring d of None \<Rightarrow> isRecurring old | Some v \<Rightarrow> v),
      recurrenceType = (case d_recurrenceType d of None \<Rightarrow> recurrenceType old | Some v \<Rightarrow> v),
      recurrenceData = (case d_recurrenceData d of None \<Rightarrow> recurrenceData old | Some v \<Rightarrow> v),
      parentRecurringId =
        (case d_parentRecurringId d of None \<Rightarrow> parentRecurringId old | Some v \<Rightarrow> v)\<rparr>"

definition updateTask :: "taskController \<Rightarrow> string \<Rightarrow> taskData \<Rightarrow> taskController \<times> bool" where
  "updateTask c taskId taskData =
     (case findIndex (\<lambda>t. task_id t = taskId) (tasks c) of
        None \<Rightarrow> (c, False)
      | Some taskIndex \<Rightarrow>
          (let c1 = c\<lparr>tasks := (tasks c)
                      [taskIndex := (spread (tasks c ! taskIndex) taskData)\<lparr>task_id := taskId\<rparr>]\<rparr>;
               c2 = saveTasks c1
           in (c2\<lparr>toasts := toasts c2 @ [TaskUpdated]\<rparr>, True)))"

text \<open>
  \<^verbatim>\<open>generateNextRecurringTask\<close>: nothing without a next date, else the parent's copy
  with a fresh id, the next date, not completed, and the parent's id as
  \<^verbatim>\<open>parentRecurringId\<close> is pushed and saved.
\<close>

definition generateNextRecurringTask ::
  "(nat \<Rightarrow> string) \<Rightarrow> timestamp \<Rightarrow> taskController \<Rightarrow> task \<Rightarrow> taskController" where
  "generateNextRecurringTask genId now c parentTask =
     (case calculateNextRecurrenceDate parentTask of
        None \<Rightarrow> c
      | Some nextDate \<Rightarrow>
          (let nextTask = parentTask
                 \<lparr>task_id := genId (idsDrawn c),
                  dueDate := formatDateISO nextDate,
                  completed := False,
                  createdAt := now,
                  parentRecurringId := Some (task_id parentTask)\<rparr>
           in saveTasks (c\<lparr>tasks := tasks c @ [nextTask], idsDrawn := Suc (idsDrawn c)\<rparr>)))"

text \<open>
  The callback of \<^verbatim>\<open>this.tasks.forEach\<close> in \<^verbatim>\<open>checkAndGenerateRecurringTasks\<close>, and
  the pass: \<^verbatim>\<open>forEach\<close> visits the tasks that were in the array when it started, while
  \<^verbatim>\<open>this.tasks.some\<close> sees the tasks pushed so far.
\<close>

definition visitRecurring ::
  "(nat \<Rightarrow> string) \<Rightarrow> timestamp \<Rightarrow> taskController \<Rightarrow> task \<Rightarrow> taskController" where
  "visitRecurring genId now c t =
     (if isRecurring t \<and> \<not> truthy (parentRecurringId t) then
        (let today = startOfToday now;
             taskDate = timeValue (createLocalDate (dueDate t))
         in if (completed t \<and> taskDate \<le> today) \<or> (\<not> completed t \<and> taskDate < today) then
              (let hasNextOccurrence =
                     list_ex (\<lambda>t'. parentRecurringId t' = Some (task_id t)
                                  \<and> timeValue (createLocalDate (dueDate t')) > today) (tasks c)
               in if \<not> hasNextOccurrence then generateNextRecurringTask genId now c t else c)
            else c)
      else c)"

definition checkAndGenerateRecurringTasks ::
  "(nat \<Rightarrow> string) \<Rightarrow> timestamp \<Rightarrow> taskController \<Rightarrow> taskController" where
  "checkAndGenerateRecurringTasks genId now c = foldl (visitRecurring genId now) c (tasks c)"

text \<open>Whether a sort key is a number.\<close>

fun isNum :: "sortKey \<Rightarrow> bool" where
  "isNum (KNum _) = True"
| "isNum (KStr _) = False"

section \<open>Example data\<close>

definition baseTask :: task where
  "baseTask = \<lparr>task_id = ''t1'', title = ''Pay rent'', description = [], category = ''personal'',
     tags = [], priority = ''medium'', dueDate = None, dueTime = [], completed = False,
     createdAt = 0, completedAt = None, isRecurring = False, recurrenceType = None,
     recurrenceData = None, parentRecurringId = None\<rparr>"

definition noData :: taskData where
  "noData = \<lparr>d_id = None, d_title = None, d_description = None, d_category = None,
     d_tags = None, d_priority = None, d_dueDate = None, d_dueTime = None, d_completed = None,
     d_createdAt = None, d_completedAt = None, d_isRecurring = None, d_recurrenceType = None,
     d_recurrenceData = None, d_parentRecurringId = None\<rparr>"

definition exController :: taskController where
  "exController = \<lparr>tasks = [baseTask, baseTask\<lparr>task_id := ''t2'', title := ''Call Ana''\<rparr>],
     storage = [], toasts = [], idsDrawn = 0\<rparr>"

definition exGenId :: "nat \<Rightarrow> string" where
  "exGenId n = ''g'' @ replicate n (CHR ''x'')"

definition weeklyTask :: task where
  "weeklyTask = baseTask\<lparr>task_id := ''w'', isRecurring := True, recurrenceType := Some ''weekly'',
     recurrenceData := Some \<lparr>weekdays = [3, 1]\<rparr>, dueDate := Some 6\<rparr>"

definition exTaskFilter :: taskFilter where
  "exTaskFilter = \<lparr>currentFilter = ''recurring'', currentCategoryFilter = None,
     currentTagFilter = None, sortOptions = \<lparr>field = ''createdAt'', direction = ''desc''\<rparr>,
     completedTasksDays = 30\<rparr>"

text \<open>
  A zone whose daylight-saving hour ended on day 80, and completed tasks with their
  \<^verbatim>\<open>completedAt\<close> and \<^verbatim>\<open>createdAt\<close>.
\<close>

definition exZone :: "int \<Rightarrow> int" where
  "exZone x = (if x < 80 * msPerDay then 3600000 else 0)"

definition stampedTask :: "string \<Rightarrow> timestamp option \<Rightarrow> timestamp \<Rightarrow> task" where
  "stampedTask i finished made = baseTask\<lparr>task_id := i, completed := True,
     completedAt := finished, createdAt := made\<rparr>"

definition stampedTasks :: "task list" where
  "stampedTasks =
     [stampedTask ''a'' None (60 * msPerDay),
      stampedTask ''b'' None (90 * msPerDay),
      stampedTask ''c'' (Some (90 * msPerDay)) 0,
      stampedTask ''d'' (Some (60 * msPerDay)) (95 * msPerDay),
      stampedTask ''e'' (Some (70 * msPerDay - 1800000)) 0]"

definition byCreation :: "task list" where
  "byCreation = [baseTask\<lparr>task_id := ''m'', createdAt := 20\<rparr>,
                 baseTask\<lparr>task_id := ''n'', createdAt := 10\<rparr>,
                 baseTask\<lparr>task_id := ''o'', createdAt := 30\<rparr>]"

definition taskA :: task where "taskA = baseTask\<lparr>task_id := ''a'', title := ''A''\<rparr>"

definition taskB :: task where "taskB = baseTask\<lparr>task_id := ''b'', title := ''B''\<rparr>"

definition taskC :: task where "taskC = baseTask\<lparr>task_id := ''c'', title := ''C''\<rparr>"

definition exSnapshot :: "(string \<times> task) list" where
  "exSnapshot = [(''a'', taskA), (''c'', taskC)]"

text \<open>
  The task a with one tag and with the same tag twice, a snapshot of the former, and a
  list in which the id b comes twice.
\<close>

definition oneTagTask :: task where "oneTagTask = taskA\<lparr>tags := [''u'']\<rparr>"

definition dupTagTask :: task where "dupTagTask = taskA\<lparr>tags := [''u'', ''u'']\<rparr>"

definition tagSnapshot :: "(string \<times> task) list" where
  "tagSnapshot = [(''a'', oneTagTask), (''c'', taskC)]"

definition dupIdTasks :: "task list" where
  "dupIdTasks = [taskB, dupTagTask, taskB\<lparr>title := ''B2''\<rparr>]"




definition threeTags :: task where
  "threeTags = baseTask\<lparr>tags := [''urgent'', ''important'', ''meeting'']\<rparr>"

definition threeTagsData :: taskData where
  "threeTagsData = noData\<lparr>d_tags := Some [''urgent'', ''important'', ''meeting'']\<rparr>"

definition fourTags :: taskData where
  "fourTags = noData\<lparr>d_tags := Some [''urgent'', ''important'', ''meeting'', ''project'']\<rparr>"

text \<open>
  A completed daily root task due on day 90, in a store of its own, looked at on day 100.
\<close>

definition recurringRoot :: task where
  "recurringRoot = baseTask\<lparr>task_id := ''r'', isRecurring := True,
     recurrenceType := Some ''daily'', dueDate := Some 90, completed := True\<rparr>"

definition recurringStore :: taskController where
  "recurringStore = \<lparr>tasks = [recurringRoot], storage = [], toasts = [], idsDrawn = 0\<rparr>"

definition recurringChild :: "string \<Rightarrow> task" where
  "recurringChild i = recurringRoot\<lparr>task_id := i, dueDate := Some 91, completed := False,
     createdAt := 100 * msPerDay, parentRecurringId := Some ''r''\<rparr>"

text \<open>
  A view of two rendered tasks, one of them under an id that holds a double quote, and
  collaborators whose selector lookup throws for such an id.
\<close>

definition quotedId :: string where
  "quotedId = [CHR ''x'', CHR 0x22, CHR ''y'']"

definition taskX :: task where "taskX = baseTask\<lparr>task_id := quotedId, title := ''X''\<rparr>"

definition exEnv :: renderEnv where
  "exEnv = \<lparr>createTaskHTML = (\<lambda>t categories allTags. Some (''<div>'' @ title t @ ''</div>'')),
     getEmptyStateHTML = (\<lambda>m. ''<h3>'' @ m @ ''</h3>''),
     selectorThrows = (\<lambda>taskId. CHR 0x22 \<in> set taskId)\<rparr>"

definition exRendered :: renderController where
  "exRendered = \<lparr>lastRenderedTasks = [(''a'', taskA), (quotedId, taskX)],
     taskListElement = Some [Node (Some ''a'') ''<div>A</div>'',
                             Node (Some quotedId) ''<div>X</div>'']\<rparr>"

section \<open>Dates\<close>

lemma addDays_plus: "addDays d n = d + n"
  by (simp add: addDays_def setDate_def getDate_def MakeDay_def Let_def)

lemma cutoffDate_local:
  "cutoffDate tza now days = (now - days * msPerDay) - tza (now - days * msPerDay)"
proof -
  have d: "setDate (now div msPerDay) (getDate (now div msPerDay) - days) = now div msPerDay - days"
    by (simp add: setDate_def getDate_def MakeDay_def Let_def)
  have "(now div msPerDay - days) * msPerDay + now mod msPerDay = now - days * msPerDay"
    by (simp add: algebra_simps)
  with d show ?thesis
    by (simp add: cutoffDate_def Let_def)
qed

lemma find_sorted_least:
  fixes c :: int
  shows "sorted xs \<Longrightarrow> find (\<lambda>w. c < w) xs = Some w \<Longrightarrow>
     w \<in> set xs \<and> c < w \<and> (\<forall>x \<in> set xs. c < x \<longrightarrow> w \<le> x)"
proof (induction xs)
  case Nil
  then show ?case by simp
next
  case (Cons a xs)
  show ?case
  proof (cases "c < a")
    case True
    with Cons.prems show ?thesis by auto
  next
    case False
    with Cons.prems have "find (\<lambda>w. c < w) xs = Some w" and "sorted xs" by simp_all
    with Cons.IH have "w \<in> set xs \<and> c < w \<and> (\<forall>x \<in> set xs. c < x \<longrightarrow> w \<le> x)" by simp
    with False show ?thesis by auto
  qed
qed

lemma find_sort_Min:
  fixes c :: int
  assumes "find (\<lambda>w. c < w) (sort ws) = Some w"
  shows "w = Min {x \<in> set ws. c < x}"
proof -
  from find_sorted_least [OF sorted_sort assms]
  have w: "w \<in> set ws" "c < w" "\<forall>x \<in> set ws. c < x \<longrightarrow> w \<le> x" by simp_all
  have "Min {x \<in> set ws. c < x} = w"
    by (rule Min_eqI) (use w in auto)
  then show ?thesis by simp
qed

lemma hd_sort_Min:
  fixes ws :: "int list"
  assumes "ws \<noteq> []"
  shows "hd (sort ws) = Min (set ws)"
proof -
  have ne: "sort ws \<noteq> []" using assms by (metis length_0_conv length_sort)
  then obtain a as where s: "sort ws = a # as" by (cases "sort ws") auto
  have "sorted (sort ws)" by (rule sorted_sort)
  then have "sorted (a # as)" using s by simp
  then have le: "\<forall>x \<in> set (a # as). a \<le> x" by auto
  have "set (sort ws) = set ws" by (rule set_sort)
  then have seteq: "set (a # as) = set ws" using s by simp
  have "Min (set ws) = a"
    by (rule Min_eqI) (use le seteq in auto)
  with s show ?thesis by simp
qed


lemma unchecked_typed:
  "calculateNextRecurrenceDate_unchecked (jsTaskOf t)
     = Inr (map_option ValidDate (calculateNextRecurrenceDate t))"
proof (cases "dueDate t")
  case None
  then show ?thesis
    by (simp add: calculateNextRecurrenceDate_unchecked_def calculateNextRecurrenceDate_def
        jsTaskOf_def)
next
  case (Some d)
  show ?thesis
  proof (cases "recurrenceType t")
    case None
    then show ?thesis
      by (simp add: calculateNextRecurrenceDate_unchecked_def calculateNextRecurrenceDate_def
          jsTaskOf_def truthy_def)
  next
    case (Some rt)
    show ?thesis
    proof (cases "recurrenceData t")
      case None
      with \<open>dueDate t = Some d\<close> \<open>recurrenceType t = Some rt\<close> show ?thesis
        by (simp add: calculateNextRecurrenceDate_unchecked_def calculateNextRecurrenceDate_def
            jsTaskOf_def truthy_def createLocalDate_def weekdaysOf_def)
    next
      case (Some rd)
      with \<open>dueDate t = Some d\<close> \<open>recurrenceType t = Some rt\<close> show ?thesis
        by (simp add: calculateNextRecurrenceDate_unchecked_def calculateNextRecurrenceDate_def
            jsTaskOf_def truthy_def createLocalDate_def weekdaysOf_def Let_def
            split: option.splits)
    qed
  qed
qed


text \<open>The calculation throws exactly on a truthy due date that is not a string and, for a
  weekly task, on truthy weekdays that are no array and whose length is not 0.\<close>

lemma weekly_no_throw:
  "(case find P ws of
      Some w \<Rightarrow> Inr (Some (addDays_unchecked b (f w)))
    | None \<Rightarrow> Inr (Some (addDays_unchecked b n)))
   \<noteq> (Inl TypeError :: jsError + jsDate option)"
  by (cases "find P ws") simp_all

lemma unchecked_throws_iff:
  "(calculateNextRecurrenceDate_unchecked task = Inl TypeError)
     = (hasDueDate (js_dueDate task) \<and> typeTruthy (js_recurrenceType task)
        \<and> (js_dueDate task = DueOther
            \<or> js_recurrenceType task = TypeString ''weekly''
              \<and> js_weekdays task = WeekdaysOther False))"
proof (cases "js_dueDate task")
  case DueFalsy
  then show ?thesis by (simp add: calculateNextRecurrenceDate_unchecked_def)
next
  case DueOther
  then show ?thesis by (simp add: calculateNextRecurrenceDate_unchecked_def)
next
  case (DueString b)
  show ?thesis
  proof (cases "js_recurrenceType task")
    case TypeFalsy
    with DueString show ?thesis by (simp add: calculateNextRecurrenceDate_unchecked_def)
  next
    case TypeOther
    with DueString show ?thesis by (simp add: calculateNextRecurrenceDate_unchecked_def)
  next
    case (TypeString rt)
    show ?thesis
    proof (cases "rt = ''weekly''")
      case False
      with DueString TypeString show ?thesis
        by (simp add: calculateNextRecurrenceDate_unchecked_def)
    next
      case True
      show ?thesis
      proof (cases "js_weekdays task")
        case WeekdaysFalsy
        with DueString TypeString True show ?thesis
          by (simp add: calculateNextRecurrenceDate_unchecked_def)
      next
        case (WeekdaysOther z)
        with DueString TypeString True show ?thesis
          by (simp add: calculateNextRecurrenceDate_unchecked_def)
      next
        case (WeekdaysArray wds)
        show ?thesis
        proof (cases b)
          case InvalidDate
          with DueString TypeString True WeekdaysArray show ?thesis
            by (simp add: calculateNextRecurrenceDate_unchecked_def)
        next
          case (ValidDate d)
          with DueString TypeString True WeekdaysArray show ?thesis
            using weekly_no_throw [where P = "\<lambda>weekday. weekday > getDay d" and ws = "sort wds"
                and b = "ValidDate d" and f = "\<lambda>w. w - getDay d"
                and n = "7 - getDay d + hd (sort wds)"]
            by (simp add: calculateNextRecurrenceDate_unchecked_def Let_def split: option.splits)
        qed
      qed
    qed
  qed
qed


section \<open>Filtering and sorting\<close>

lemma set_insertBy: "set (insertBy cmp x ys) = insert x (set ys)"
  by (induction ys) auto

lemma set_stableSort: "set (stableSort cmp xs) = set xs"
  by (induction xs) (simp_all add: stableSort_def set_insertBy)

lemma set_foldl_filter: "set (foldl (\<lambda>acc p. filter p acc) xs ps) \<subseteq> set xs"
proof (induction ps arbitrary: xs)
  case Nil
  then show ?case by simp
next
  case (Cons p ps)
  have "set (foldl (\<lambda>acc p. filter p acc) (filter p xs) ps) \<subseteq> set (filter p xs)"
    by (rule Cons.IH)
  then show ?case by auto
qed

lemma applyStatusFilter_hides:
  "currentFilter f \<noteq> ''completed'' \<Longrightarrow> t \<in> set (applyStatusFilter tza f now ts)
     \<Longrightarrow> \<not> completed t"
  unfolding applyStatusFilter_def Let_def
  by (simp only: if_True if_False not_False_eq_True set_filter mem_Collect_eq)

lemma set_applyPriorityFilter: "set (applyPriorityFilter f xs) \<subseteq> set xs"
  unfolding applyPriorityFilter_def
  by (cases "currentFilter f \<in> set [''low'', ''medium'', ''high'']") auto

lemma sortValue_kind:
  "isNum (sortValue fld categories allTags a) = isNum (sortValue fld categories allTags b)"
  by (simp add: sortValue_def)

lemma keyLess_trans: "keyLess a b \<Longrightarrow> keyLess b c \<Longrightarrow> keyLess a c"
  by (cases a; cases b; cases c) auto

lemma keyLess_asym: "keyLess a b \<Longrightarrow> \<not> keyLess b a"
  by (cases a; cases b) auto

lemma keyLess_total: "isNum a = isNum b \<Longrightarrow> a \<noteq> b \<Longrightarrow> keyLess a b \<or> keyLess b a"
  by (cases a; cases b) auto

lemma sorted_wrt_insertBy:
  assumes tr: "\<forall>a b c. R a b \<longrightarrow> R b c \<longrightarrow> R a c"
  shows "sorted_wrt R ys \<Longrightarrow>
     \<forall>y \<in> set ys. (cmp x y \<le> 0 \<longrightarrow> R x y) \<and> (\<not> cmp x y \<le> 0 \<longrightarrow> R y x) \<Longrightarrow>
     sorted_wrt R (insertBy cmp x ys)"
proof (induction ys)
  case Nil
  then show ?case by simp
next
  case (Cons y ys)
  show ?case
  proof (cases "cmp x y \<le> 0")
    case True
    with Cons.prems have xy: "R x y" by simp
    have "\<forall>z \<in> set ys. R x z"
    proof
      fix z assume "z \<in> set ys"
      with Cons.prems(1) have "R y z" by simp
      with xy show "R x z" using tr by blast
    qed
    with True xy Cons.prems(1) show ?thesis by simp
  next
    case False
    with Cons.prems have yx: "R y x" by simp
    have "sorted_wrt R (insertBy cmp x ys)"
      using Cons.IH Cons.prems by simp
    moreover have "\<forall>z \<in> set (insertBy cmp x ys). R y z"
      using yx Cons.prems(1) by (simp add: set_insertBy)
    ultimately show ?thesis using False by simp
  qed
qed

lemma sorted_wrt_stableSort:
  assumes tr: "\<forall>a b c. R a b \<longrightarrow> R b c \<longrightarrow> R a c"
  shows "distinct xs \<Longrightarrow>
     \<forall>x \<in> set xs. \<forall>y \<in> set xs. x \<noteq> y \<longrightarrow>
        (cmp x y \<le> 0 \<longrightarrow> R x y) \<and> (\<not> cmp x y \<le> 0 \<longrightarrow> R y x) \<Longrightarrow>
     sorted_wrt R (stableSort cmp xs)"
proof (induction xs)
  case Nil
  then show ?case by (simp add: stableSort_def)
next
  case (Cons x xs)
  have ih: "sorted_wrt R (stableSort cmp xs)"
    using Cons.IH Cons.prems by simp
  have "\<forall>y \<in> set (stableSort cmp xs). (cmp x y \<le> 0 \<longrightarrow> R x y) \<and> (\<not> cmp x y \<le> 0 \<longrightarrow> R y x)"
  proof
    fix y assume "y \<in> set (stableSort cmp xs)"
    then have "y \<in> set xs" by (simp add: set_stableSort)
    moreover from this Cons.prems(1) have "x \<noteq> y" by auto
    ultimately show "(cmp x y \<le> 0 \<longrightarrow> R x y) \<and> (\<not> cmp x y \<le> 0 \<longrightarrow> R y x)"
      using Cons.prems(2) by simp
  qed
  with ih have "sorted_wrt R (insertBy cmp x (stableSort cmp xs))"
    by (rule sorted_wrt_insertBy [OF tr])
  then show ?case by (simp add: stableSort_def)
qed

lemma sorted_wrt_unique:
  assumes asym: "\<forall>a b. R a b \<longrightarrow> \<not> R b a"
  shows "sorted_wrt R xs \<Longrightarrow> sorted_wrt R ys \<Longrightarrow> set xs = set ys \<Longrightarrow> xs = ys"
proof (induction xs arbitrary: ys)
  case Nil
  then show ?case by simp
next
  case (Cons x xs)
  from Cons.prems(3) obtain y ys' where ys: "ys = y # ys'"
    by (cases ys) auto
  have irr: "\<And>a. \<not> R a a" using asym by blast
  have x_notin: "x \<notin> set xs" using Cons.prems(1) irr by auto
  have y_notin: "y \<notin> set ys'" using Cons.prems(2) ys irr by auto
  have xy: "x = y"
  proof (rule ccontr)
    assume ne: "x \<noteq> y"
    have "x \<in> set (y # ys')" using Cons.prems(3) ys by auto
    with ne have "x \<in> set ys'" by simp
    with Cons.prems(2) ys have "R y x" by simp
    moreover have "y \<in> set (x # xs)" using Cons.prems(3) ys by auto
    with ne have "y \<in> set xs" by simp
    with Cons.prems(1) have "R x y" by simp
    ultimately show False using asym by blast
  qed
  have "set xs = set ys'"
    using Cons.prems(3) ys xy x_notin y_notin by auto
  moreover have "sorted_wrt R xs" "sorted_wrt R ys'"
    using Cons.prems ys by simp_all
  ultimately have "xs = ys'" using Cons.IH by blast
  with xy ys show ?case by simp
qed

section \<open>Reconciliation\<close>

lemma sort_eq_iff_mset: "(sort xs = sort ys) = (mset xs = mset ys)"
proof
  assume "sort xs = sort ys"
  then have "mset (sort xs) = mset (sort ys)" by simp
  then show "mset xs = mset ys" by simp
next
  assume "mset xs = mset ys"
  then have "sorted_list_of_multiset (mset xs) = sorted_list_of_multiset (mset ys)" by simp
  then show "sort xs = sort ys" by simp
qed

lemma find_app:
  "find P (xs @ ys) = (case find P xs of None \<Rightarrow> find P ys | Some x \<Rightarrow> Some x)"
  by (induction xs) simp_all

lemma map_of_mapSet: "map_of (mapSet k v m) = (map_of m)(k \<mapsto> v)"
  by (induction m) (auto simp: fun_eq_iff)

lemma keys_mapSet: "fst ` set (mapSet k v m) = insert k (fst ` set m)"
proof (induction m)
  case Nil
  show ?case by simp
next
  case (Cons p m)
  obtain k' v' where p: "p = (k', v')" by (cases p)
  show ?case
  proof (cases "k = k'")
    case True
    then show ?thesis by (simp add: p)
  next
    case False
    then show ?thesis by (simp add: p Cons.IH insert_commute)
  qed
qed

lemma distinct_mapSet: "distinct (map fst m) \<Longrightarrow> distinct (map fst (mapSet k v m))"
proof (induction m)
  case Nil
  then show ?case by simp
next
  case (Cons p m)
  obtain k' v' where p: "p = (k', v')" by (cases p)
  from Cons.prems have n: "k' \<notin> fst ` set m" and d: "distinct (map fst m)"
    by (simp_all add: p)
  show ?case
  proof (cases "k = k'")
    case True
    with n d show ?thesis by (simp add: p)
  next
    case False
    with n have "k' \<notin> fst ` set (mapSet k v m)" by (simp add: keys_mapSet)
    with False Cons.IH [OF d] show ?thesis by (simp add: p)
  qed
qed

lemma map_of_foldl_mapSet:
  "map_of (foldl (\<lambda>m t. mapSet (task_id t) t m) acc ts) k
     = (case find (\<lambda>t. task_id t = k) (rev ts) of None \<Rightarrow> map_of acc k | Some t \<Rightarrow> Some t)"
proof (induction ts arbitrary: acc)
  case Nil
  then show ?case by simp
next
  case (Cons t ts)
  show ?case
    by (simp add: Cons.IH find_app map_of_mapSet split: option.splits)
qed

lemma distinct_foldl_mapSet:
  "distinct (map fst acc) \<Longrightarrow> distinct (map fst (foldl (\<lambda>m t. mapSet (task_id t) t m) acc ts))"
proof (induction ts arbitrary: acc)
  case Nil
  then show ?case by simp
next
  case (Cons t ts)
  from Cons.prems have "distinct (map fst (mapSet (task_id t) t acc))"
    by (rule distinct_mapSet)
  then show ?case by (simp add: Cons.IH)
qed

lemma map_of_buildCurrentTasks: "map_of (buildCurrentTasks ts) k = lastWithId ts k"
  by (simp add: buildCurrentTasks_def lastWithId_def map_of_foldl_mapSet split: option.splits)

lemma distinct_buildCurrentTasks: "distinct (map fst (buildCurrentTasks ts))"
  by (simp add: buildCurrentTasks_def distinct_foldl_mapSet)

lemma entry_buildCurrentTasks:
  "((k, t) \<in> set (buildCurrentTasks ts)) = (lastWithId ts k = Some t)"
  using map_of_eq_Some_iff [OF distinct_buildCurrentTasks, of ts k t]
  by (simp only: map_of_buildCurrentTasks)

lemma lastWithId_id: "lastWithId ts k = Some t \<Longrightarrow> task_id t = k"
  by (auto simp: lastWithId_def find_Some_iff)

lemma lastWithId_mem: "lastWithId ts k = Some t \<Longrightarrow> t \<in> set ts"
proof -
  assume "lastWithId ts k = Some t"
  then have "t \<in> set (rev ts)"
    unfolding lastWithId_def find_Some_iff by (metis nth_mem)
  then show ?thesis by simp
qed

lemma lastWithId_None: "(lastWithId ts k = None) = (k \<notin> task_id ` set ts)"
  by (auto simp: lastWithId_def find_None_iff)

lemma find_distinct:
  "distinct (map f xs) \<Longrightarrow> x \<in> set xs \<Longrightarrow> find (\<lambda>y. f y = f x) xs = Some x"
proof (induction xs)
  case Nil
  then show ?case by simp
next
  case (Cons y ys)
  show ?case
  proof (cases "x = y")
    case True
    then show ?thesis by simp
  next
    case False
    with Cons.prems have m: "x \<in> set ys" by simp
    then have "f x \<in> f ` set ys" by (rule imageI)
    with Cons.prems(1) have "f y \<noteq> f x" by auto
    with Cons.IH m Cons.prems(1) show ?thesis by simp
  qed
qed

lemma lastWithId_distinct:
  assumes "distinct (map task_id ts)"
  shows "(lastWithId ts (task_id t) = Some t) = (t \<in> set ts)"
proof
  assume "lastWithId ts (task_id t) = Some t"
  then show "t \<in> set ts" by (rule lastWithId_mem)
next
  assume m: "t \<in> set ts"
  have d: "distinct (map task_id (rev ts))"
    using assms unfolding rev_map [symmetric] by simp
  from m have "t \<in> set (rev ts)" by simp
  with d have "find (\<lambda>y. task_id y = task_id t) (rev ts) = Some t"
    by (rule find_distinct)
  then show "lastWithId ts (task_id t) = Some t"
    by (simp add: lastWithId_def)
qed

lemma hasTaskChanged_counted: "hasTaskChanged c l = trackedFieldsDifferCounted c l"
  by (simp add: hasTaskChanged_def trackedFieldsDifferCounted_def sort_eq_iff_mset)

lemma counted_sets:
  "distinct (tags c) \<Longrightarrow> distinct (tags l) \<Longrightarrow>
     trackedFieldsDifferCounted c l = trackedFieldsDiffer c l"
  by (simp add: trackedFieldsDifferCounted_def trackedFieldsDiffer_def
      set_eq_iff_mset_eq_distinct)

lemma added_set:
  "set (addedTasks (diffTasks snapshot (buildCurrentTasks ts)))
     = {t. lastWithId ts (task_id t) = Some t \<and> task_id t \<notin> fst ` set snapshot}"
proof (rule set_eqI)
  fix t
  have "(t \<in> set (addedTasks (diffTasks snapshot (buildCurrentTasks ts))))
      = (\<exists>k. (k, t) \<in> set (buildCurrentTasks ts) \<and> map_of snapshot k = None)"
    by (force simp: diffTasks_def)
  also have "\<dots> = (\<exists>k. lastWithId ts k = Some t \<and> k \<notin> fst ` set snapshot)"
    by (simp only: entry_buildCurrentTasks map_of_eq_None_iff)
  also have "\<dots> = (lastWithId ts (task_id t) = Some t \<and> task_id t \<notin> fst ` set snapshot)"
    using lastWithId_id by blast
  finally show "(t \<in> set (addedTasks (diffTasks snapshot (buildCurrentTasks ts))))
      = (t \<in> {t. lastWithId ts (task_id t) = Some t \<and> task_id t \<notin> fst ` set snapshot})"
    by simp
qed

lemma modified_set:
  "set (modifiedTasks (diffTasks snapshot (buildCurrentTasks ts)))
     = {t. lastWithId ts (task_id t) = Some t
           \<and> (\<exists>l. map_of snapshot (task_id t) = Some l \<and> trackedFieldsDifferCounted t l)}"
proof (rule set_eqI)
  fix t
  have "(t \<in> set (modifiedTasks (diffTasks snapshot (buildCurrentTasks ts))))
      = (\<exists>k. (k, t) \<in> set (buildCurrentTasks ts)
              \<and> (\<exists>l. map_of snapshot k = Some l \<and> hasTaskChanged t l))"
    by (force simp: diffTasks_def split: option.splits)
  also have "\<dots> = (\<exists>k. lastWithId ts k = Some t
              \<and> (\<exists>l. map_of snapshot k = Some l \<and> trackedFieldsDifferCounted t l))"
    by (simp only: entry_buildCurrentTasks hasTaskChanged_counted)
  also have "\<dots> = (lastWithId ts (task_id t) = Some t
              \<and> (\<exists>l. map_of snapshot (task_id t) = Some l \<and> trackedFieldsDifferCounted t l))"
    using lastWithId_id by blast
  finally show "(t \<in> set (modifiedTasks (diffTasks snapshot (buildCurrentTasks ts))))
      = (t \<in> {t. lastWithId ts (task_id t) = Some t
           \<and> (\<exists>l. map_of snapshot (task_id t) = Some l \<and> trackedFieldsDifferCounted t l)})"
    by simp
qed

lemma removed_set:
  "set (removedTaskIds (diffTasks snapshot (buildCurrentTasks ts)))
     = {k \<in> fst ` set snapshot. k \<notin> task_id ` set ts}"
proof -
  have h: "mapHas k (buildCurrentTasks ts) = (k \<in> task_id ` set ts)" for k
    using lastWithId_None [of ts k] by (simp add: mapHas_def map_of_buildCurrentTasks)
  show ?thesis
    by (force simp: diffTasks_def h)
qed

lemma tagDiff:
  "diffTasks tagSnapshot (buildCurrentTasks dupIdTasks)
     = \<lparr>addedTasks = [taskB\<lparr>title := ''B2''\<rparr>], modifiedTasks = [dupTagTask],
        removedTaskIds = [''c'']\<rparr>"
  by (simp add: diffTasks_def buildCurrentTasks_def tagSnapshot_def dupIdTasks_def oneTagTask_def
      dupTagTask_def taskA_def taskB_def taskC_def baseTask_def mapHas_def hasTaskChanged_def)

lemma exSame:
  "fst ` set exSnapshot = task_id ` set [taskA, taskC]
   \<and> (\<forall>t \<in> set [taskA, taskC]. \<forall>l. map_of exSnapshot (task_id t) = Some l
          \<longrightarrow> \<not> trackedFieldsDifferCounted t l)"
  by (simp add: exSnapshot_def taskA_def taskC_def baseTask_def trackedFieldsDifferCounted_def)

lemma exDiff:
  "diffTasks exSnapshot (buildCurrentTasks [taskA\<lparr>tags := [''u'']\<rparr>, taskB])
     = \<lparr>addedTasks = [taskB], modifiedTasks = [taskA\<lparr>tags := [''u'']\<rparr>],
        removedTaskIds = [''c'']\<rparr>"
  by (simp add: diffTasks_def buildCurrentTasks_def exSnapshot_def taskA_def taskB_def taskC_def
      baseTask_def mapHas_def hasTaskChanged_def)

section \<open>Task store\<close>

lemma findIndex_None_iff: "(findIndex P xs = None) = (\<forall>x \<in> set xs. \<not> P x)"
  by (induction xs) auto

lemma findIndex_Some:
  "findIndex P xs = Some i \<Longrightarrow> i < length xs \<and> P (xs ! i) \<and> (\<forall>j < i. \<not> P (xs ! j))"
proof (induction xs arbitrary: i)
  case Nil
  then show ?case by simp
next
  case (Cons x xs)
  show ?case
  proof (cases "P x")
    case True
    with Cons.prems show ?thesis by simp
  next
    case False
    with Cons.prems obtain k where k: "findIndex P xs = Some k" "i = Suc k" by auto
    from Cons.IH [OF k(1)] have ih: "k < length xs" "P (xs ! k)" "\<forall>j < k. \<not> P (xs ! j)"
      by simp_all
    have "\<forall>j < Suc k. \<not> P ((x # xs) ! j)"
    proof (intro allI impI)
      fix j assume "j < Suc k"
      then show "\<not> P ((x # xs) ! j)" using False ih(3) by (cases j) auto
    qed
    with ih k show ?thesis by simp
  qed
qed

lemma map_filter_id_Nil: "List.map_filter (\<lambda>x. x) xs = [] \<Longrightarrow> \<forall>x \<in> set xs. x = None"
  by (induction xs) (auto split: option.splits)

lemma validateTask_tags: "isValid (validateTask now t) \<Longrightarrow> length (tags t) \<le> 3"
proof -
  assume "isValid (validateTask now t)"
  then have "validateTask now t = []" by (simp add: isValid_def)
  then have "\<forall>x \<in> set [validateRequired (title t) TaskTitle,
        validateLength (title t) 1 100 TaskTitle,
        (if description t \<noteq> [] then validateLength (description t) 0 500 TaskDescription
         else None),
        validateDate now (dueDate t) True,
        validateTime (dueTime t),
        (if length (tags t) > 3 then Some TooManyTags else None),
        (if isRecurring t \<and> dueDate t = None then Some RecurringNeedsDueDate else None)]. x = None"
    unfolding validateTask_def by (rule map_filter_id_Nil)
  then have "(if length (tags t) > 3 then Some TooManyTags else None) = None" by simp
  then show ?thesis by (simp split: if_splits)
qed

lemma addTag_limit: "length (tags t) \<le> 3 \<Longrightarrow> length (tags (fst (addTag t tagId))) \<le> 3"
  by (simp add: addTag_def)

lemma addTag_refuses: "3 \<le> length (tags t) \<or> tagId \<in> set (tags t) \<Longrightarrow> addTag t tagId = (t, False)"
  by (auto simp: addTag_def)

lemma tags_spread: "tags ((spread old d)\<lparr>task_id := i\<rparr>) = (case d_tags d of None \<Rightarrow> tags old | Some v \<Rightarrow> v)"
  by (simp add: spread_def)

lemma updateTask_tags:
  assumes inv: "\<forall>t \<in> set (tasks c). length (tags t) \<le> 3"
      and d: "\<forall>tg. d_tags d = Some tg \<longrightarrow> length tg \<le> 3"
  shows "\<forall>t \<in> set (tasks (fst (updateTask c taskId d))). length (tags t) \<le> 3"
proof (cases "findIndex (\<lambda>t. task_id t = taskId) (tasks c)")
  case None
  then have "fst (updateTask c taskId d) = c" by (simp add: updateTask_def)
  then show ?thesis using inv by simp
next
  case (Some i)
  from findIndex_Some [OF Some] have il: "i < length (tasks c)" by simp
  define new where "new = (spread (tasks c ! i) d)\<lparr>task_id := taskId\<rparr>"
  have res: "tasks (fst (updateTask c taskId d)) = (tasks c)[i := new]"
    using Some by (simp add: updateTask_def saveTasks_def Let_def new_def)
  have "tasks c ! i \<in> set (tasks c)" using il by (rule nth_mem)
  with inv have old: "length (tags (tasks c ! i)) \<le> 3" by (rule bspec)
  have tn: "tags new = (case d_tags d of None \<Rightarrow> tags (tasks c ! i) | Some v \<Rightarrow> v)"
    unfolding new_def by (rule tags_spread)
  have new: "length (tags new) \<le> 3"
  proof (cases "d_tags d")
    case None
    then show ?thesis using tn old by simp
  next
    case (Some tg)
    then have "length tg \<le> 3" using d by simp
    then show ?thesis using tn Some by simp
  qed
  show ?thesis
  proof
    fix t assume "t \<in> set (tasks (fst (updateTask c taskId d)))"
    then have "t \<in> set ((tasks c)[i := new])" by (simp only: res)
    then have "t \<in> insert new (set (tasks c))"
      by (rule subsetD [OF set_update_subset_insert])
    then have "t = new \<or> t \<in> set (tasks c)" by simp
    then show "length (tags t) \<le> 3"
    proof
      assume "t = new" then show ?thesis using new by simp
    next
      assume "t \<in> set (tasks c)" with inv show ?thesis by (rule bspec)
    qed
  qed
qed

lemma addTask_tags:
  assumes inv: "\<forall>t \<in> set (tasks c). length (tags t) \<le> 3"
      and d: "\<forall>tg. d_tags d = Some tg \<longrightarrow> length tg \<le> 3"
  shows "\<forall>t \<in> set (tasks (fst (addTask genId now c d silent))). length (tags t) \<le> 3"
  using inv d
  by (cases "d_tags d") (auto simp: addTask_def Let_def saveTasks_def)

lemma valid_baseTask: "isValid (validateTask 0 baseTask)"
  by (simp add: isValid_def validateTask_def baseTask_def validateRequired_def validateLength_def
      validateDate_def validateTime_def trim_def isSpace_def)

lemma today100: "startOfToday (100 * msPerDay) = 100"
  by (simp add: startOfToday_def msPerDay_def)

lemma next_root: "calculateNextRecurrenceDate recurringRoot = Some 91"
  by (simp add: calculateNextRecurrenceDate_def recurringRoot_def baseTask_def truthy_def
      createLocalDate_def addDays_plus)

lemma pass_one:
  "checkAndGenerateRecurringTasks exGenId (100 * msPerDay) recurringStore
     = \<lparr>tasks = [recurringRoot, recurringChild ''g''],
        storage = [recurringRoot, recurringChild ''g''], toasts = [], idsDrawn = 1\<rparr>"
  by (simp add: checkAndGenerateRecurringTasks_def recurringStore_def visitRecurring_def today100
      generateNextRecurringTask_def next_root saveTasks_def formatDateISO_def exGenId_def
      timeValue_def createLocalDate_def truthy_def Let_def recurringChild_def)
     (simp add: recurringRoot_def baseTask_def)

lemma pass_two:
  "checkAndGenerateRecurringTasks exGenId (100 * msPerDay)
      \<lparr>tasks = [recurringRoot, recurringChild ''g''],
        storage = [recurringRoot, recurringChild ''g''], toasts = [], idsDrawn = 1\<rparr>
     = \<lparr>tasks = [recurringRoot, recurringChild ''g'', recurringChild ''gx''],
        storage = [recurringRoot, recurringChild ''g'', recurringChild ''gx''], toasts = [],
        idsDrawn = 2\<rparr>"
  by (simp add: checkAndGenerateRecurringTasks_def visitRecurring_def today100
      generateNextRecurringTask_def next_root saveTasks_def formatDateISO_def exGenId_def
      timeValue_def createLocalDate_def truthy_def Let_def recurringChild_def)
     (simp add: recurringRoot_def baseTask_def)

section \<open>The claims\<close>

text \<open>
  C1. Whenever the status filter is not \<^verbatim>\<open>completed\<close>, the list that
  \<^verbatim>\<open>filterTasks\<close> returns holds no completed task, for every task list, category
  list, tag list, search term, and whatever category, tag and sort settings are active.
\<close>

theorem filterTasks_hides_completed:
  assumes "currentFilter f \<noteq> ''completed''"
  shows "\<forall>t \<in> set (filterTasks tza f now ts categories allTags searchTerm). \<not> completed t"
proof
  fix t
  assume "t \<in> set (filterTasks tza f now ts categories allTags searchTerm)"
  then have "t \<in> set (foldl (\<lambda>acc p. filter p acc)
                       (applyPriorityFilter f (applyStatusFilter tza f now ts))
                       (activeFilters f categories allTags searchTerm))"
    by (simp add: filterTasks_def Let_def sortTasks_def set_stableSort)
  then have "t \<in> set (applyPriorityFilter f (applyStatusFilter tza f now ts))"
    by (rule subsetD [OF set_foldl_filter])
  then have "t \<in> set (applyStatusFilter tza f now ts)"
    by (rule subsetD [OF set_applyPriorityFilter])
  then show "\<not> completed t"
    by (rule applyStatusFilter_hides [OF assms])
qed

text \<open>
  An instance: under the \<^verbatim>\<open>recurring\<close> filter a completed recurring task is dropped
  and the open one is kept.
\<close>

theorem filterTasks_hides_completed_witness:
  "currentFilter exTaskFilter \<noteq> ''completed''
   \<and> filterTasks exZone exTaskFilter 0 [weeklyTask, weeklyTask\<lparr>completed := True\<rparr>] [] [] []
       = [weeklyTask]
   \<and> list_all (\<lambda>t. \<not> completed t)
         (filterTasks exZone exTaskFilter 0 [weeklyTask, weeklyTask\<lparr>completed := True\<rparr>] [] [] [])"
proof -
  have h: "currentFilter exTaskFilter \<noteq> ''completed''"
    by (simp add: exTaskFilter_def)
  have v: "filterTasks exZone exTaskFilter 0 [weeklyTask, weeklyTask\<lparr>completed := True\<rparr>] [] [] []
       = [weeklyTask]"
    by (simp add: filterTasks_def exTaskFilter_def weeklyTask_def baseTask_def applyStatusFilter_def
        applyPriorityFilter_def activeFilters_def truthy_def sortTasks_def stableSort_def)
  have a: "list_all (\<lambda>t. \<not> completed t)
         (filterTasks exZone exTaskFilter 0 [weeklyTask, weeklyTask\<lparr>completed := True\<rparr>] [] [] [])"
    using filterTasks_hides_completed [OF h] by (simp only: list_all_iff)
  show ?thesis
    by (rule conjI [OF h conjI [OF v a]])
qed

text \<open>
  C2. For a task with a due date \<open>d\<close> and recurrence type \<^verbatim>\<open>weekly\<close>, with \<open>W\<close>
  the set of selected weekdays and \<open>c\<close> the weekday of \<open>d\<close>: the next occurrence is
  \<open>d + 7\<close> when \<open>W\<close> is empty, \<open>d + (w - c)\<close> for the least \<open>w\<close> in \<open>W\<close> above \<open>c\<close>
  when there is one, and \<open>d + (7 - c + Min W)\<close> otherwise. In particular a Wednesday
  (\<open>c = 3\<close>) with \<open>W = {1, 3}\<close> gives \<open>d + 5\<close>.
\<close>

theorem weekly_next_occurrence:
  assumes "dueDate t = Some d" and "recurrenceType t = Some ''weekly''"
  shows "calculateNextRecurrenceDate t =
           Some (if set (weekdaysOf t) = {} then d + 7
                 else if \<exists>w \<in> set (weekdaysOf t). getDay d < w
                   then d + (Min {w \<in> set (weekdaysOf t). getDay d < w} - getDay d)
                   else d + (7 - getDay d + Min (set (weekdaysOf t))))
         \<and> (getDay d = 3 \<and> set (weekdaysOf t) = {1, 3}
              \<longrightarrow> calculateNextRecurrenceDate t = Some (d + 5))"
proof -
  let ?W = "weekdaysOf t" and ?c = "getDay d"
  have calc: "calculateNextRecurrenceDate t =
      (if ?W = [] then Some (d + 7)
       else case find (\<lambda>w. ?c < w) (sort ?W) of
              Some w \<Rightarrow> Some (d + (w - ?c))
            | None \<Rightarrow> Some (d + (7 - ?c + hd (sort ?W))))"
    using assms
    by (simp add: calculateNextRecurrenceDate_def truthy_def createLocalDate_def Let_def
        addDays_plus split: option.splits)
  have main: "calculateNextRecurrenceDate t =
           Some (if set ?W = {} then d + 7
                 else if \<exists>w \<in> set ?W. ?c < w
                   then d + (Min {w \<in> set ?W. ?c < w} - ?c)
                   else d + (7 - ?c + Min (set ?W)))"
  proof (cases "?W = []")
    case True
    then show ?thesis using calc by simp
  next
    case ne: False
    show ?thesis
    proof (cases "find (\<lambda>w. ?c < w) (sort ?W)")
      case None
      then have "\<not> (\<exists>w \<in> set ?W. ?c < w)"
        by (simp add: find_None_iff)
      then show ?thesis using calc ne None hd_sort_Min [OF ne] by simp
    next
      case (Some w)
      then have ex: "\<exists>w \<in> set ?W. ?c < w"
        using find_sorted_least [OF sorted_sort Some] by auto
      show ?thesis using calc ne Some ex find_sort_Min [OF Some] by simp
    qed
  qed
  have "getDay d = 3 \<and> set ?W = {1, 3} \<longrightarrow> calculateNextRecurrenceDate t = Some (d + 5)"
  proof
    assume a: "getDay d = 3 \<and> set ?W = {1, 3}"
    then have "\<not> (\<exists>w \<in> set ?W. ?c < w)" by auto
    moreover have "Min (set ?W) = 1" using a by simp
    moreover have "set ?W \<noteq> {}" using a by simp
    ultimately show "calculateNextRecurrenceDate t = Some (d + 5)"
      using main a by simp
  qed
  with main show ?thesis by (rule conjI)
qed

text \<open>
  An instance: day 6 (Wednesday, 1970-01-07) with the weekdays 3 and 1 selected gives
  day 11, the following Monday.
\<close>

theorem weekly_next_occurrence_witness:
  "dueDate weeklyTask = Some 6 \<and> recurrenceType weeklyTask = Some ''weekly''
   \<and> getDay 6 = 3 \<and> set (weekdaysOf weeklyTask) = {1, 3}
   \<and> calculateNextRecurrenceDate weeklyTask = Some 11"
proof -
  have h1: "dueDate weeklyTask = Some 6" by (simp add: weeklyTask_def baseTask_def)
  have h2: "recurrenceType weeklyTask = Some ''weekly''" by (simp add: weeklyTask_def baseTask_def)
  have h3: "getDay 6 = 3" by (simp add: getDay_def)
  have h4: "set (weekdaysOf weeklyTask) = {1, 3}"
    by (auto simp: weekdaysOf_def weeklyTask_def baseTask_def)
  from weekly_next_occurrence [OF h1 h2] h3 h4
  have "calculateNextRecurrenceDate weeklyTask = Some (6 + 5)" by blast
  with h1 h2 h3 h4 show ?thesis by simp
qed

text \<open>
  C3. For every snapshot and every current task list, the lists computed by
  \<^verbatim>\<open>renderTasks\<close> before it patches the view are: added, the tasks that are the last of
  the list with their id and whose id is not in the snapshot; removed, the snapshot ids
  that are not in the current list; modified, the tasks that are the last with their id,
  are in the snapshot and differ from their snapshot entry in a tracked field, the tags
  compared as multisets (in any order, repetitions counted) and every other field for
  equality. Hence all three are empty when the list carries the snapshot's ids with the
  same tracked fields. With unique ids in the list and duplicate-free tag lists these
  are the tasks of the list whose id is not in the snapshot, and the tasks of the list
  whose tracked fields differ with the tags compared as sets.
\<close>

theorem reconciliation_diff_counted:
  "(let p = diffTasks snapshot (buildCurrentTasks ts) in
      set (addedTasks p)
        = {t. lastWithId ts (task_id t) = Some t \<and> task_id t \<notin> fst ` set snapshot}
    \<and> set (removedTaskIds p) = {k \<in> fst ` set snapshot. k \<notin> task_id ` set ts}
    \<and> set (modifiedTasks p)
        = {t. lastWithId ts (task_id t) = Some t
              \<and> (\<exists>l. map_of snapshot (task_id t) = Some l \<and> trackedFieldsDifferCounted t l)}
    \<and> (fst ` set snapshot = task_id ` set ts
         \<and> (\<forall>t \<in> set ts. \<forall>l. map_of snapshot (task_id t) = Some l
                \<longrightarrow> \<not> trackedFieldsDifferCounted t l)
         \<longrightarrow> addedTasks p = [] \<and> modifiedTasks p = [] \<and> removedTaskIds p = [])
    \<and> (distinct (map task_id ts) \<and> (\<forall>t \<in> set ts. distinct (tags t))
         \<and> (\<forall>l \<in> snd ` set snapshot. distinct (tags l))
         \<longrightarrow> set (addedTasks p) = {t \<in> set ts. task_id t \<notin> fst ` set snapshot}
           \<and> set (modifiedTasks p)
               = {t \<in> set ts. \<exists>l. map_of snapshot (task_id t) = Some l
                                    \<and> trackedFieldsDiffer t l}))"
proof -
  let ?p = "diffTasks snapshot (buildCurrentTasks ts)"
  note a = added_set [of snapshot ts]
  note r = removed_set [of snapshot ts]
  note m = modified_set [of snapshot ts]
  have e: "fst ` set snapshot = task_id ` set ts
         \<and> (\<forall>t \<in> set ts. \<forall>l. map_of snapshot (task_id t) = Some l
                \<longrightarrow> \<not> trackedFieldsDifferCounted t l)
         \<longrightarrow> addedTasks ?p = [] \<and> modifiedTasks ?p = [] \<and> removedTaskIds ?p = []"
  proof
    assume h: "fst ` set snapshot = task_id ` set ts
         \<and> (\<forall>t \<in> set ts. \<forall>l. map_of snapshot (task_id t) = Some l
                \<longrightarrow> \<not> trackedFieldsDifferCounted t l)"
    then have same: "fst ` set snapshot = task_id ` set ts"
      and eq: "\<forall>t \<in> set ts. \<forall>l. map_of snapshot (task_id t) = Some l
                \<longrightarrow> \<not> trackedFieldsDifferCounted t l"
      by simp_all
    have "set (addedTasks ?p) = {}"
    proof -
      have "\<not> (lastWithId ts (task_id t) = Some t \<and> task_id t \<notin> fst ` set snapshot)" for t
      proof
        assume c: "lastWithId ts (task_id t) = Some t \<and> task_id t \<notin> fst ` set snapshot"
        then have "lastWithId ts (task_id t) = Some t" by (rule conjunct1)
        then have "t \<in> set ts" by (rule lastWithId_mem)
        then have "task_id t \<in> task_id ` set ts" by (rule imageI)
        with c same show False by simp
      qed
      then show ?thesis unfolding a by simp
    qed
    moreover have "set (removedTaskIds ?p) = {}"
      unfolding r same by simp
    moreover have "set (modifiedTasks ?p) = {}"
    proof -
      have "\<not> (lastWithId ts (task_id t) = Some t
              \<and> (\<exists>l. map_of snapshot (task_id t) = Some l \<and> trackedFieldsDifferCounted t l))"
        for t
      proof
        assume c: "lastWithId ts (task_id t) = Some t
              \<and> (\<exists>l. map_of snapshot (task_id t) = Some l \<and> trackedFieldsDifferCounted t l)"
        then have "lastWithId ts (task_id t) = Some t" by (rule conjunct1)
        then have "t \<in> set ts" by (rule lastWithId_mem)
        with eq have "\<forall>l. map_of snapshot (task_id t) = Some l
                \<longrightarrow> \<not> trackedFieldsDifferCounted t l"
          by (rule bspec)
        with c show False by blast
      qed
      then show ?thesis unfolding m by simp
    qed
    ultimately show "addedTasks ?p = [] \<and> modifiedTasks ?p = [] \<and> removedTaskIds ?p = []"
      by simp
  qed
  have u: "distinct (map task_id ts) \<and> (\<forall>t \<in> set ts. distinct (tags t))
         \<and> (\<forall>l \<in> snd ` set snapshot. distinct (tags l))
         \<longrightarrow> set (addedTasks ?p) = {t \<in> set ts. task_id t \<notin> fst ` set snapshot}
           \<and> set (modifiedTasks ?p)
               = {t \<in> set ts. \<exists>l. map_of snapshot (task_id t) = Some l
                                    \<and> trackedFieldsDiffer t l}"
  proof
    assume h: "distinct (map task_id ts) \<and> (\<forall>t \<in> set ts. distinct (tags t))
         \<and> (\<forall>l \<in> snd ` set snapshot. distinct (tags l))"
    then have ids: "distinct (map task_id ts)"
      and tg: "\<forall>t \<in> set ts. distinct (tags t)"
      and tg': "\<forall>l \<in> snd ` set snapshot. distinct (tags l)"
      by simp_all
    note last = lastWithId_distinct [OF ids]
    have changed: "trackedFieldsDifferCounted t l = trackedFieldsDiffer t l"
      if "t \<in> set ts" "map_of snapshot (task_id t) = Some l" for t l
    proof -
      have "(task_id t, l) \<in> set snapshot" using that(2) by (rule map_of_SomeD)
      then have "snd (task_id t, l) \<in> snd ` set snapshot" by (rule imageI)
      then have "l \<in> snd ` set snapshot" by simp
      with tg' have "distinct (tags l)" by (rule bspec)
      moreover from tg that(1) have "distinct (tags t)" by (rule bspec)
      ultimately show ?thesis by (rule counted_sets [rotated])
    qed
    have a': "set (addedTasks ?p) = {t \<in> set ts. task_id t \<notin> fst ` set snapshot}"
      unfolding a last by simp
    have m': "set (modifiedTasks ?p)
               = {t \<in> set ts. \<exists>l. map_of snapshot (task_id t) = Some l
                                    \<and> trackedFieldsDiffer t l}"
      unfolding m last using changed by (intro Collect_cong) (metis (full_types))
    from a' m' show "set (addedTasks ?p) = {t \<in> set ts. task_id t \<notin> fst ` set snapshot}
           \<and> set (modifiedTasks ?p)
               = {t \<in> set ts. \<exists>l. map_of snapshot (task_id t) = Some l
                                    \<and> trackedFieldsDiffer t l}"
      by (rule conjI)
  qed
  show ?thesis
    unfolding Let_def by (rule conjI [OF a conjI [OF r conjI [OF m conjI [OF e u]]]])
qed

text \<open>
  Three instances. A snapshot of a (with one tag) and c against a list in which b comes
  twice and a carries its tag twice: the later b is added, a is modified, c is
  removed. A snapshot of a and c against a with a new tag and the new task b, where ids
  are unique and tag lists duplicate-free. And the snapshot of a and c against its own
  tasks.
\<close>

theorem reconciliation_diff_counted_witness:
  "diffTasks tagSnapshot (buildCurrentTasks dupIdTasks)
        = \<lparr>addedTasks = [taskB\<lparr>title := ''B2''\<rparr>], modifiedTasks = [dupTagTask],
           removedTaskIds = [''c'']\<rparr>
   \<and> set [taskB\<lparr>title := ''B2''\<rparr>]
        = {t. lastWithId dupIdTasks (task_id t) = Some t \<and> task_id t \<notin> fst ` set tagSnapshot}
   \<and> set [''c''] = {k \<in> fst ` set tagSnapshot. k \<notin> task_id ` set dupIdTasks}
   \<and> set [dupTagTask]
        = {t. lastWithId dupIdTasks (task_id t) = Some t
              \<and> (\<exists>l. map_of tagSnapshot (task_id t) = Some l \<and> trackedFieldsDifferCounted t l)}
   \<and> set [taskB]
        = {t \<in> set [taskA\<lparr>tags := [''u'']\<rparr>, taskB]. task_id t \<notin> fst ` set exSnapshot}
   \<and> set [taskA\<lparr>tags := [''u'']\<rparr>]
        = {t \<in> set [taskA\<lparr>tags := [''u'']\<rparr>, taskB].
             \<exists>l. map_of exSnapshot (task_id t) = Some l \<and> trackedFieldsDiffer t l}
   \<and> addedTasks (diffTasks exSnapshot (buildCurrentTasks [taskA, taskC])) = []
   \<and> modifiedTasks (diffTasks exSnapshot (buildCurrentTasks [taskA, taskC])) = []
   \<and> removedTaskIds (diffTasks exSnapshot (buildCurrentTasks [taskA, taskC])) = []"
proof -
  let ?ts = "[taskA\<lparr>tags := [''u'']\<rparr>, taskB]"
  let ?o = "diffTasks tagSnapshot (buildCurrentTasks dupIdTasks)"
  let ?p = "diffTasks exSnapshot (buildCurrentTasks ?ts)"
  let ?q = "diffTasks exSnapshot (buildCurrentTasks [taskA, taskC])"
  have oa: "addedTasks ?o = [taskB\<lparr>title := ''B2''\<rparr>]" by (simp only: tagDiff patch.simps)
  have om: "modifiedTasks ?o = [dupTagTask]" by (simp only: tagDiff patch.simps)
  have or: "removedTaskIds ?o = [''c'']" by (simp only: tagDiff patch.simps)
  have ea: "addedTasks ?p = [taskB]" by (simp only: exDiff patch.simps)
  have em: "modifiedTasks ?p = [taskA\<lparr>tags := [''u'']\<rparr>]" by (simp only: exDiff patch.simps)
  have h: "distinct (map task_id ?ts) \<and> (\<forall>t \<in> set ?ts. distinct (tags t))
         \<and> (\<forall>l \<in> snd ` set exSnapshot. distinct (tags l))"
    by (simp add: exSnapshot_def taskA_def taskB_def taskC_def baseTask_def)
  note O = reconciliation_diff_counted [of tagSnapshot dupIdTasks, unfolded Let_def]
  note P = reconciliation_diff_counted [of exSnapshot ?ts, unfolded Let_def]
  note Q = reconciliation_diff_counted [of exSnapshot "[taskA, taskC]", unfolded Let_def]
  note a = conjunct1 [OF O]
  note r = conjunct1 [OF conjunct2 [OF O]]
  note m = conjunct1 [OF conjunct2 [OF conjunct2 [OF O]]]
  note u = mp [OF conjunct2 [OF conjunct2 [OF conjunct2 [OF conjunct2 [OF P]]]] h]
  note same = mp [OF conjunct1 [OF conjunct2 [OF conjunct2 [OF conjunct2 [OF Q]]]] exSame]
  show ?thesis
    by (rule conjI [OF tagDiff conjI [OF a [unfolded oa] conjI [OF r [unfolded or]
          conjI [OF m [unfolded om] conjI [OF conjunct1 [OF u, unfolded ea]
          conjI [OF conjunct2 [OF u, unfolded em] same]]]]]])
qed

text \<open>
  The claim as worded fails where a tag is repeated and where an id is repeated. Against
  a snapshot entry with the tag u once, the same task with the tag u twice is reported
  as modified, although every tracked field, the tags taken as a set, is the same. And
  of two tasks of the list with the id b, which the snapshot does not have, only the
  later one is reported as added.
\<close>

theorem reconciliation_diff_counterexample:
  "modifiedTasks (diffTasks tagSnapshot (buildCurrentTasks [dupTagTask, taskC])) = [dupTagTask]
   \<and> map task_id [dupTagTask, taskC] = map fst tagSnapshot
   \<and> map_of tagSnapshot (task_id dupTagTask) = Some oneTagTask
   \<and> \<not> trackedFieldsDiffer dupTagTask oneTagTask
   \<and> addedTasks (diffTasks tagSnapshot (buildCurrentTasks dupIdTasks))
        = [taskB\<lparr>title := ''B2''\<rparr>]
   \<and> taskB \<in> set dupIdTasks
   \<and> map_of tagSnapshot (task_id taskB) = None
   \<and> taskB \<notin> set (addedTasks (diffTasks tagSnapshot (buildCurrentTasks dupIdTasks)))"
  by (simp add: diffTasks_def buildCurrentTasks_def tagSnapshot_def oneTagTask_def
      dupTagTask_def dupIdTasks_def taskA_def taskB_def taskC_def baseTask_def mapHas_def
      hasTaskChanged_def trackedFieldsDiffer_def)

text \<open>
  C4. When removing, replacing or appending view nodes throws, \<^verbatim>\<open>applyIncrementalUpdates\<close>
  catches the exception itself and renders only the added and modified tasks, and
  \<^verbatim>\<open>renderTasks\<close> then stores the current tasks as the snapshot. At the example view the
  selector lookup for the removed task throws: the view is left with task b alone
  although the current list is a and b, and the snapshot holds both; a rebuild from the
  whole list would show both.
\<close>

theorem patch_failure_partial_rebuild:
  "removeDeleted exEnv [quotedId] [Node (Some ''a'') ''<div>A</div>'',
        Node (Some quotedId) ''<div>X</div>'']
     = ([Node (Some ''a'') ''<div>A</div>'', Node (Some quotedId) ''<div>X</div>''],
        Some SelectorSyntaxError)
   \<and> renderTasks exEnv exRendered [taskA, taskB] [] [] defaultEmptyMessage
     = (\<lparr>lastRenderedTasks = [(''a'', taskA), (''b'', taskB)],
         taskListElement = Some [Node (Some ''b'') ''<div>B</div>'']\<rparr>, None)
   \<and> rendererRenderTasks exEnv (taskListElement exRendered) [taskA, taskB] [] []
        defaultEmptyMessage
     = (Some [Node (Some ''a'') ''<div>A</div>'', Node (Some ''b'') ''<div>B</div>''], None)"
  by (simp add: renderTasks_def exRendered_def exEnv_def quotedId_def buildCurrentTasks_def
      diffTasks_def mapHas_def hasTaskChanged_def applyIncrementalUpdates_def
      rendererRenderTasks_def defaultEmptyMessage_def taskA_def taskB_def taskX_def baseTask_def)

text \<open>
  C5. The generation pass run twice on the example store: the completed root due on day
  90 has no child when the first pass runs on day 100 and gets one, due on day 91; that
  child is not due after day 100, so the second pass appends another child of the same
  root for the same day.
\<close>

theorem recurring_pass_twice_duplicates:
  "isRecurring recurringRoot \<and> parentRecurringId recurringRoot = None \<and> completed recurringRoot
   \<and> dueDate recurringRoot = Some 90 \<and> startOfToday (100 * msPerDay) = 100
   \<and> tasks recurringStore = [recurringRoot]
   \<and> tasks (checkAndGenerateRecurringTasks exGenId (100 * msPerDay) recurringStore)
       = [recurringRoot, recurringChild ''g'']
   \<and> tasks (checkAndGenerateRecurringTasks exGenId (100 * msPerDay)
         (checkAndGenerateRecurringTasks exGenId (100 * msPerDay) recurringStore))
       = [recurringRoot, recurringChild ''g'', recurringChild ''gx'']
   \<and> parentRecurringId (recurringChild ''g'') = Some (task_id recurringRoot)
   \<and> parentRecurringId (recurringChild ''gx'') = Some (task_id recurringRoot)
   \<and> dueDate (recurringChild ''gx'') = Some 91"
proof -
  have root: "isRecurring recurringRoot \<and> parentRecurringId recurringRoot = None
      \<and> completed recurringRoot \<and> dueDate recurringRoot = Some 90"
    by (simp add: recurringRoot_def baseTask_def)
  have store: "tasks recurringStore = [recurringRoot]"
    by (simp add: recurringStore_def)
  have one: "tasks (checkAndGenerateRecurringTasks exGenId (100 * msPerDay) recurringStore)
       = [recurringRoot, recurringChild ''g'']"
    unfolding pass_one by simp
  have two: "tasks (checkAndGenerateRecurringTasks exGenId (100 * msPerDay)
         (checkAndGenerateRecurringTasks exGenId (100 * msPerDay) recurringStore))
       = [recurringRoot, recurringChild ''g'', recurringChild ''gx'']"
    unfolding pass_one pass_two by simp
  have kids: "parentRecurringId (recurringChild ''g'') = Some (task_id recurringRoot)
      \<and> parentRecurringId (recurringChild ''gx'') = Some (task_id recurringRoot)
      \<and> dueDate (recurringChild ''gx'') = Some 91"
    by (simp add: recurringChild_def recurringRoot_def)
  from root today100 store one two kids show ?thesis by (intro conjI) (elim conjE, assumption)+
qed

text \<open>
  C6. Under the \<^verbatim>\<open>completed\<close> status filter a task is kept exactly when it is
  completed and, for a retention window of \<open>n > 0\<close> days, its completion instant
  (\<^verbatim>\<open>completedAt\<close>, or \<^verbatim>\<open>createdAt\<close> when \<^verbatim>\<open>completedAt\<close> is absent) is not before
  the instant at which the local clock read the present time \<open>n\<close> days earlier; with the
  same zone offset then and now that is: at most \<open>n\<close> times 24 hours before the present
  instant \<open>now - tza now\<close>. A window of 0 applies no cutoff. With a 30-day window (and
  zone offsets of at most a day) a task completed 40 days ago is excluded and one
  completed 10 days ago is included.
\<close>

theorem completed_filter_retention:
  assumes "currentFilter f = ''completed''"
  shows "(t \<in> set (applyStatusFilter tza f now ts) \<longleftrightarrow>
            t \<in> set ts \<and> completed t \<and>
            (completedTasksDays f > 0 \<longrightarrow>
               (now - completedTasksDays f * msPerDay)
                 - tza (now - completedTasksDays f * msPerDay)
               \<le> (case completedAt t of Some c \<Rightarrow> c | None \<Rightarrow> createdAt t)))
         \<and> (tza (now - completedTasksDays f * msPerDay) = tza now \<longrightarrow>
              (t \<in> set (applyStatusFilter tza f now ts) \<longleftrightarrow>
                 t \<in> set ts \<and> completed t \<and>
                 (completedTasksDays f > 0 \<longrightarrow>
                    (now - tza now) - (case completedAt t of Some c \<Rightarrow> c | None \<Rightarrow> createdAt t)
                    \<le> completedTasksDays f * msPerDay)))
         \<and> ((\<forall>x. \<bar>tza x\<bar> \<le> msPerDay) \<and> completedTasksDays f = 30
              \<and> (case completedAt t of Some c \<Rightarrow> c | None \<Rightarrow> createdAt t)
                   = (now - tza now) - 40 * msPerDay
              \<longrightarrow> t \<notin> set (applyStatusFilter tza f now ts))
         \<and> ((\<forall>x. \<bar>tza x\<bar> \<le> msPerDay) \<and> completedTasksDays f = 30
              \<and> (case completedAt t of Some c \<Rightarrow> c | None \<Rightarrow> createdAt t)
                   = (now - tza now) - 10 * msPerDay
              \<and> completed t \<and> t \<in> set ts
              \<longrightarrow> t \<in> set (applyStatusFilter tza f now ts))"
proof -
  let ?stamp = "case completedAt t of Some c \<Rightarrow> c | None \<Rightarrow> createdAt t"
  let ?n = "completedTasksDays f"
  have main: "t \<in> set (applyStatusFilter tza f now ts) \<longleftrightarrow>
            t \<in> set ts \<and> completed t \<and>
            (?n > 0 \<longrightarrow> (now - ?n * msPerDay) - tza (now - ?n * msPerDay) \<le> ?stamp)"
    using assms
    by (auto simp: applyStatusFilter_def Let_def cutoffDate_local completedDate_def)
  have same: "tza (now - ?n * msPerDay) = tza now \<longrightarrow>
              (t \<in> set (applyStatusFilter tza f now ts) \<longleftrightarrow>
                 t \<in> set ts \<and> completed t \<and>
                 (?n > 0 \<longrightarrow> (now - tza now) - ?stamp \<le> ?n * msPerDay))"
  proof
    assume e: "tza (now - ?n * msPerDay) = tza now"
    have "((now - ?n * msPerDay) - tza now \<le> ?stamp) = ((now - tza now) - ?stamp \<le> ?n * msPerDay)"
      by linarith
    then show "t \<in> set (applyStatusFilter tza f now ts) \<longleftrightarrow>
                 t \<in> set ts \<and> completed t \<and>
                 (?n > 0 \<longrightarrow> (now - tza now) - ?stamp \<le> ?n * msPerDay)"
      unfolding main e by simp
  qed
  have far: "(\<forall>x. \<bar>tza x\<bar> \<le> msPerDay) \<and> ?n = 30 \<and> ?stamp = (now - tza now) - 40 * msPerDay
              \<longrightarrow> t \<notin> set (applyStatusFilter tza f now ts)"
  proof
    assume a: "(\<forall>x. \<bar>tza x\<bar> \<le> msPerDay) \<and> ?n = 30 \<and> ?stamp = (now - tza now) - 40 * msPerDay"
    then have b1: "\<bar>tza now\<bar> \<le> msPerDay" and b2: "\<bar>tza (now - 30 * msPerDay)\<bar> \<le> msPerDay"
      by simp_all
    have "\<not> ((now - 30 * msPerDay) - tza (now - 30 * msPerDay) \<le> (now - tza now) - 40 * msPerDay)"
      using b1 b2 by (simp add: msPerDay_def)
    then show "t \<notin> set (applyStatusFilter tza f now ts)"
      unfolding main using a by simp
  qed
  have near: "(\<forall>x. \<bar>tza x\<bar> \<le> msPerDay) \<and> ?n = 30 \<and> ?stamp = (now - tza now) - 10 * msPerDay
              \<and> completed t \<and> t \<in> set ts
              \<longrightarrow> t \<in> set (applyStatusFilter tza f now ts)"
  proof
    assume a: "(\<forall>x. \<bar>tza x\<bar> \<le> msPerDay) \<and> ?n = 30 \<and> ?stamp = (now - tza now) - 10 * msPerDay
              \<and> completed t \<and> t \<in> set ts"
    then have b1: "\<bar>tza now\<bar> \<le> msPerDay" and b2: "\<bar>tza (now - 30 * msPerDay)\<bar> \<le> msPerDay"
      by simp_all
    have "(now - 30 * msPerDay) - tza (now - 30 * msPerDay) \<le> (now - tza now) - 10 * msPerDay"
      using b1 b2 by (simp add: msPerDay_def)
    then show "t \<in> set (applyStatusFilter tza f now ts)"
      unfolding main using a by simp
  qed
  from main same far near show ?thesis by (intro conjI)
qed

text \<open>
  An instance on day 100 with the 30-day window, in a zone whose daylight-saving hour
  ended on day 80. Tasks a and b have no \<^verbatim>\<open>completedAt\<close> and were created 40 and 10
  days ago; c and d were completed 10 and 40 days ago, whatever their creation time; e
  was completed 30 days and 30 minutes ago and is kept, the cutoff lying an hour
  earlier than 30 times 24 hours ago.
\<close>

theorem completed_filter_retention_witness:
  "currentFilter (exTaskFilter\<lparr>currentFilter := ''completed''\<rparr>) = ''completed''
   \<and> map task_id (applyStatusFilter exZone (exTaskFilter\<lparr>currentFilter := ''completed''\<rparr>)
        (100 * msPerDay) stampedTasks) = [''b'', ''c'', ''e'']
   \<and> stampedTask ''a'' None (60 * msPerDay)
        \<notin> set (applyStatusFilter exZone (exTaskFilter\<lparr>currentFilter := ''completed''\<rparr>)
                 (100 * msPerDay) stampedTasks)
   \<and> stampedTask ''b'' None (90 * msPerDay)
        \<in> set (applyStatusFilter exZone (exTaskFilter\<lparr>currentFilter := ''completed''\<rparr>)
                 (100 * msPerDay) stampedTasks)
   \<and> stampedTask ''c'' (Some (90 * msPerDay)) 0
        \<in> set (applyStatusFilter exZone (exTaskFilter\<lparr>currentFilter := ''completed''\<rparr>)
                 (100 * msPerDay) stampedTasks)
   \<and> stampedTask ''d'' (Some (60 * msPerDay)) (95 * msPerDay)
        \<notin> set (applyStatusFilter exZone (exTaskFilter\<lparr>currentFilter := ''completed''\<rparr>)
                 (100 * msPerDay) stampedTasks)
   \<and> stampedTask ''e'' (Some (70 * msPerDay - 1800000)) 0
        \<in> set (applyStatusFilter exZone (exTaskFilter\<lparr>currentFilter := ''completed''\<rparr>)
                 (100 * msPerDay) stampedTasks)"
proof -
  let ?f = "exTaskFilter\<lparr>currentFilter := ''completed''\<rparr>"
  let ?now = "100 * msPerDay"
  let ?R = "applyStatusFilter exZone ?f ?now stampedTasks"
  have h: "currentFilter ?f = ''completed''" by simp
  have n: "completedTasksDays ?f = 30" by (simp add: exTaskFilter_def)
  have z: "\<forall>x. \<bar>exZone x\<bar> \<le> msPerDay" by (simp add: exZone_def msPerDay_def)
  have zn: "exZone ?now = 0" by (simp add: exZone_def msPerDay_def)
  have zc: "exZone (?now - 30 * msPerDay) = 3600000" by (simp add: exZone_def msPerDay_def)
  have v: "map task_id ?R = [''b'', ''c'', ''e'']"
    by (simp add: applyStatusFilter_def stampedTasks_def stampedTask_def baseTask_def
        exTaskFilter_def cutoffDate_local completedDate_def exZone_def msPerDay_def)
  note T = completed_filter_retention [OF h, where tza = exZone and now = ?now
      and ts = stampedTasks]
  have a: "stampedTask ''a'' None (60 * msPerDay) \<notin> set ?R"
  proof (rule mp [OF conjunct1 [OF conjunct2 [OF conjunct2 [OF T]]]])
    show "(\<forall>x. \<bar>exZone x\<bar> \<le> msPerDay) \<and> completedTasksDays ?f = 30
      \<and> (case completedAt (stampedTask ''a'' None (60 * msPerDay)) of Some c \<Rightarrow> c
           | None \<Rightarrow> createdAt (stampedTask ''a'' None (60 * msPerDay)))
          = (?now - exZone ?now) - 40 * msPerDay"
      using z n zn by (simp add: stampedTask_def)
  qed
  have b: "stampedTask ''b'' None (90 * msPerDay) \<in> set ?R"
  proof (rule mp [OF conjunct2 [OF conjunct2 [OF conjunct2 [OF T]]]])
    show "(\<forall>x. \<bar>exZone x\<bar> \<le> msPerDay) \<and> completedTasksDays ?f = 30
      \<and> (case completedAt (stampedTask ''b'' None (90 * msPerDay)) of Some c \<Rightarrow> c
           | None \<Rightarrow> createdAt (stampedTask ''b'' None (90 * msPerDay)))
          = (?now - exZone ?now) - 10 * msPerDay
      \<and> completed (stampedTask ''b'' None (90 * msPerDay))
      \<and> stampedTask ''b'' None (90 * msPerDay) \<in> set stampedTasks"
      using z n zn by (simp add: stampedTask_def stampedTasks_def)
  qed
  have c: "stampedTask ''c'' (Some (90 * msPerDay)) 0 \<in> set ?R"
    unfolding conjunct1 [OF T] n zc
    by (simp add: stampedTask_def stampedTasks_def msPerDay_def)
  have d: "stampedTask ''d'' (Some (60 * msPerDay)) (95 * msPerDay) \<notin> set ?R"
    unfolding conjunct1 [OF T] n zc
    by (simp add: stampedTask_def stampedTasks_def msPerDay_def)
  have e: "stampedTask ''e'' (Some (70 * msPerDay - 1800000)) 0 \<in> set ?R"
    unfolding conjunct1 [OF T] n zc
    by (simp add: stampedTask_def stampedTasks_def msPerDay_def)
  show ?thesis
    by (rule conjI [OF h conjI [OF v conjI [OF a conjI [OF b conjI [OF c conjI [OF d e]]]]]])
qed





text \<open>
  C8. For every sort field and every task list without two equal sort keys for that
  field, sorting with direction \<^verbatim>\<open>asc\<close> gives the reverse of sorting with direction
  \<^verbatim>\<open>desc\<close>.
\<close>

theorem sort_asc_desc_reversed:
  assumes "distinct (map (sortValue fld categories allTags) ts)"
  shows "sortTasks (f\<lparr>sortOptions := \<lparr>field = fld, direction = ''asc''\<rparr>\<rparr>) ts categories allTags
       = rev (sortTasks (f\<lparr>sortOptions := \<lparr>field = fld, direction = ''desc''\<rparr>\<rparr>) ts
                categories allTags)"
proof -
  let ?key = "sortValue fld categories allTags"
  let ?R = "\<lambda>a b. keyLess (?key a) (?key b)"
  let ?asc = "compareTasks \<lparr>field = fld, direction = ''asc''\<rparr> categories allTags"
  let ?desc = "compareTasks \<lparr>field = fld, direction = ''desc''\<rparr> categories allTags"
  have dist: "distinct ts" using assms by (simp add: distinct_map)
  have tot: "?R x y \<or> ?R y x" if "x \<in> set ts" "y \<in> set ts" "x \<noteq> y" for x y
  proof -
    have "?key x \<noteq> ?key y"
      using assms that by (meson distinct_map inj_on_contraD)
    then show ?thesis using sortValue_kind keyLess_total by blast
  qed
  have trR: "\<forall>a b c. ?R a b \<longrightarrow> ?R b c \<longrightarrow> ?R a c"
    using keyLess_trans by blast
  have trR': "\<forall>a b c. ?R b a \<longrightarrow> ?R c b \<longrightarrow> ?R c a"
    using keyLess_trans by blast
  have asR: "\<forall>a b. ?R a b \<longrightarrow> \<not> ?R b a"
    using keyLess_asym by blast
  have asc: "sorted_wrt ?R (stableSort ?asc ts)"
  proof (rule sorted_wrt_stableSort [OF trR dist], intro ballI impI)
    fix x y assume "x \<in> set ts" "y \<in> set ts" "x \<noteq> y"
    then have "?R x y \<or> ?R y x" by (rule tot)
    then show "(?asc x y \<le> 0 \<longrightarrow> ?R x y) \<and> (\<not> ?asc x y \<le> 0 \<longrightarrow> ?R y x)"
      using keyLess_asym [of "?key x" "?key y"]
      by (auto simp: compareTasks_def Let_def)
  qed
  have desc: "sorted_wrt (\<lambda>a b. ?R b a) (stableSort ?desc ts)"
  proof (rule sorted_wrt_stableSort [OF trR' dist], intro ballI impI)
    fix x y assume "x \<in> set ts" "y \<in> set ts" "x \<noteq> y"
    then have "?R x y \<or> ?R y x" by (rule tot)
    then show "(?desc x y \<le> 0 \<longrightarrow> ?R y x) \<and> (\<not> ?desc x y \<le> 0 \<longrightarrow> ?R x y)"
      using keyLess_asym [of "?key x" "?key y"]
      by (auto simp: compareTasks_def Let_def)
  qed
  then have "sorted_wrt ?R (rev (stableSort ?desc ts))"
    by (simp add: sorted_wrt_rev)
  moreover have "set (stableSort ?asc ts) = set (rev (stableSort ?desc ts))"
    by (simp add: set_stableSort)
  ultimately have "stableSort ?asc ts = rev (stableSort ?desc ts)"
    using asc by (intro sorted_wrt_unique [OF asR])
  then show ?thesis by (simp add: sortTasks_def)
qed

text \<open>
  An instance: three tasks sorted by creation time.
\<close>

theorem sort_asc_desc_reversed_witness:
  "distinct (map (sortValue ''createdAt'' [] []) byCreation)
   \<and> map task_id (sortTasks (exTaskFilter\<lparr>sortOptions := \<lparr>field = ''createdAt'', direction = ''desc''\<rparr>\<rparr>)
        byCreation [] []) = [''o'', ''m'', ''n'']
   \<and> sortTasks (exTaskFilter\<lparr>sortOptions := \<lparr>field = ''createdAt'', direction = ''asc''\<rparr>\<rparr>)
        byCreation [] []
      = rev (sortTasks (exTaskFilter\<lparr>sortOptions := \<lparr>field = ''createdAt'', direction = ''desc''\<rparr>\<rparr>)
        byCreation [] [])"
proof -
  have h: "distinct (map (sortValue ''createdAt'' [] []) byCreation)"
    by (simp add: byCreation_def sortValue_def baseTask_def)
  have v: "map task_id (sortTasks (exTaskFilter\<lparr>sortOptions := \<lparr>field = ''createdAt'', direction = ''desc''\<rparr>\<rparr>)
        byCreation [] []) = [''o'', ''m'', ''n'']"
    by (simp add: sortTasks_def stableSort_def byCreation_def compareTasks_def sortValue_def
        baseTask_def)
  show ?thesis
    by (rule conjI [OF h conjI [OF v sort_asc_desc_reversed [OF h]]])
qed

text \<open>
  C9, as the code has it. \<^verbatim>\<open>Task.addTag\<close> keeps a task of at most 3 tags at most 3
  tags and refuses a fourth or a duplicate tag; a task that \<^verbatim>\<open>validateTask\<close> accepts has
  at most 3 tags; \<^verbatim>\<open>updateTask\<close> and \<^verbatim>\<open>addTask\<close> store the tags of their
  \<^verbatim>\<open>taskData\<close> unchecked, and keep every stored task at 3 tags or fewer when the
  \<^verbatim>\<open>taskData\<close> has no tags or at most 3.
\<close>

theorem tag_limit_preserved:
  "(length (tags t) \<le> 3 \<longrightarrow> length (tags (fst (addTag t tagId))) \<le> 3)
   \<and> (3 \<le> length (tags t) \<or> tagId \<in> set (tags t) \<longrightarrow> addTag t tagId = (t, False))
   \<and> (isValid (validateTask now t) \<longrightarrow> length (tags t) \<le> 3)
   \<and> ((\<forall>x \<in> set (tasks c). length (tags x) \<le> 3)
        \<and> (\<forall>tg. d_tags d = Some tg \<longrightarrow> length tg \<le> 3)
        \<longrightarrow> (\<forall>x \<in> set (tasks (fst (updateTask c taskId d))). length (tags x) \<le> 3)
            \<and> (\<forall>x \<in> set (tasks (fst (addTask genId now c d silent))). length (tags x) \<le> 3))"
proof (intro conjI impI)
  assume "length (tags t) \<le> 3"
  then show "length (tags (fst (addTag t tagId))) \<le> 3" by (rule addTag_limit)
next
  assume "3 \<le> length (tags t) \<or> tagId \<in> set (tags t)"
  then show "addTag t tagId = (t, False)" by (rule addTag_refuses)
next
  assume "isValid (validateTask now t)"
  then show "length (tags t) \<le> 3" by (rule validateTask_tags)
next
  assume a: "(\<forall>x \<in> set (tasks c). length (tags x) \<le> 3)
        \<and> (\<forall>tg. d_tags d = Some tg \<longrightarrow> length tg \<le> 3)"
  show "\<forall>x \<in> set (tasks (fst (updateTask c taskId d))). length (tags x) \<le> 3"
    by (rule updateTask_tags [OF conjunct1 [OF a] conjunct2 [OF a]])
next
  assume a: "(\<forall>x \<in> set (tasks c). length (tags x) \<le> 3)
        \<and> (\<forall>tg. d_tags d = Some tg \<longrightarrow> length tg \<le> 3)"
  show "\<forall>x \<in> set (tasks (fst (addTask genId now c d silent))). length (tags x) \<le> 3"
    by (rule addTask_tags [OF conjunct1 [OF a] conjunct2 [OF a]])
qed

text \<open>
  Instances: a task of three tags, a valid task, and an update and a creation with three
  tags.
\<close>

theorem tag_limit_preserved_witness:
  "length (tags threeTags) \<le> 3
   \<and> length (tags (fst (addTag threeTags ''project''))) \<le> 3
   \<and> addTag threeTags ''project'' = (threeTags, False)
   \<and> isValid (validateTask 0 baseTask) \<and> length (tags baseTask) \<le> 3
   \<and> list_all (\<lambda>x. length (tags x) \<le> 3) (tasks exController)
   \<and> d_tags threeTagsData = Some [''urgent'', ''important'', ''meeting'']
   \<and> list_all (\<lambda>x. length (tags x) \<le> 3)
         (tasks (fst (updateTask exController ''t1'' threeTagsData)))
   \<and> list_all (\<lambda>x. length (tags x) \<le> 3)
         (tasks (fst (addTask exGenId 0 exController threeTagsData False)))"
proof -
  note T = tag_limit_preserved [of threeTags "''project''" 0 exController threeTagsData "''t1''"
      exGenId False]
  note B = tag_limit_preserved [of baseTask "''project''" 0 exController threeTagsData "''t1''"
      exGenId False]
  have h1: "length (tags threeTags) \<le> 3" by (simp add: threeTags_def)
  have h2: "3 \<le> length (tags threeTags) \<or> ''project'' \<in> set (tags threeTags)"
    by (simp add: threeTags_def)
  have h3: "\<forall>x \<in> set (tasks exController). length (tags x) \<le> 3"
    by (simp add: exController_def baseTask_def)
  have d: "d_tags threeTagsData = Some [''urgent'', ''important'', ''meeting'']"
    by (simp add: threeTagsData_def)
  have h4: "\<forall>tg. d_tags threeTagsData = Some tg \<longrightarrow> length tg \<le> 3"
    by (simp add: threeTagsData_def)
  have c1: "length (tags (fst (addTag threeTags ''project''))) \<le> 3"
    by (rule mp [OF conjunct1 [OF T] h1])
  have c2: "addTag threeTags ''project'' = (threeTags, False)"
    by (rule mp [OF conjunct1 [OF conjunct2 [OF T]] h2])
  have c3: "length (tags baseTask) \<le> 3"
    by (rule mp [OF conjunct1 [OF conjunct2 [OF conjunct2 [OF B]]] valid_baseTask])
  note c45 = mp [OF conjunct2 [OF conjunct2 [OF conjunct2 [OF T]]] conjI [OF h3 h4]]
  have l3: "list_all (\<lambda>x. length (tags x) \<le> 3) (tasks exController)"
    using h3 by (simp only: list_all_iff)
  have c4: "list_all (\<lambda>x. length (tags x) \<le> 3)
         (tasks (fst (updateTask exController ''t1'' threeTagsData)))"
    using conjunct1 [OF c45] by (simp only: list_all_iff)
  have c5: "list_all (\<lambda>x. length (tags x) \<le> 3)
         (tasks (fst (addTask exGenId 0 exController threeTagsData False)))"
    using conjunct2 [OF c45] by (simp only: list_all_iff)
  show ?thesis
    by (rule conjI [OF h1 conjI [OF c1 conjI [OF c2 conjI [OF valid_baseTask conjI [OF c3
          conjI [OF l3 conjI [OF d conjI [OF c4 c5]]]]]]]])
qed

text \<open>
  C9 as stated fails for the partial update: in a store whose tasks have no tags,
  \<^verbatim>\<open>updateTask\<close> with four tags leaves the target with four.
\<close>

theorem updateTask_four_tags_counterexample:
  "map (length \<circ> tags) (tasks exController) = [0, 0]
   \<and> map (length \<circ> tags) (tasks (fst (updateTask exController ''t1'' fourTags))) = [4, 0]"
  by (simp add: exController_def baseTask_def updateTask_def fourTags_def noData_def spread_def
      saveTasks_def)

text \<open>
  C10. \<^verbatim>\<open>updateTask(taskId, taskData)\<close>: without a task of that id it returns
  \<^verbatim>\<open>false\<close> and changes nothing; otherwise it returns \<^verbatim>\<open>true\<close>, the task list keeps
  its length, the target (the first task of that id) still has the id \<open>taskId\<close> whatever
  id the \<^verbatim>\<open>taskData\<close> carries, and every other position holds the task it held.
\<close>

theorem updateTask_frame:
  "((\<forall>t \<in> set (tasks c). task_id t \<noteq> taskId) \<longrightarrow> updateTask c (taskId) d = (c, False))
   \<and> ((\<exists>t \<in> set (tasks c). task_id t = taskId) \<longrightarrow>
        snd (updateTask c taskId d) = True
        \<and> length (tasks (fst (updateTask c taskId d))) = length (tasks c)
        \<and> (\<exists>i < length (tasks c).
              task_id (tasks c ! i) = taskId
              \<and> task_id (tasks (fst (updateTask c taskId d)) ! i) = taskId
              \<and> (\<forall>j < length (tasks c). j \<noteq> i \<longrightarrow>
                    tasks (fst (updateTask c taskId d)) ! j = tasks c ! j)))"
proof (intro conjI impI)
  assume "\<forall>t \<in> set (tasks c). task_id t \<noteq> taskId"
  then have "findIndex (\<lambda>t. task_id t = taskId) (tasks c) = None"
    by (simp add: findIndex_None_iff)
  then show "updateTask c taskId d = (c, False)"
    by (simp add: updateTask_def)
next
  assume ex: "\<exists>t \<in> set (tasks c). task_id t = taskId"
  then have "findIndex (\<lambda>t. task_id t = taskId) (tasks c) \<noteq> None"
    by (simp add: findIndex_None_iff)
  then obtain i where i: "findIndex (\<lambda>t. task_id t = taskId) (tasks c) = Some i" by auto
  from findIndex_Some [OF i] have il: "i < length (tasks c)" and ii: "task_id (tasks c ! i) = taskId"
    by simp_all
  have res: "tasks (fst (updateTask c taskId d))
      = (tasks c)[i := (spread (tasks c ! i) d)\<lparr>task_id := taskId\<rparr>]"
    using i by (simp add: updateTask_def saveTasks_def Let_def)
  show "snd (updateTask c taskId d) = True"
    using i by (simp add: updateTask_def Let_def)
  show "length (tasks (fst (updateTask c taskId d))) = length (tasks c)"
    by (simp add: res)
  have "task_id (tasks (fst (updateTask c taskId d)) ! i) = taskId"
    using il by (simp add: res)
  moreover have "\<forall>j < length (tasks c). j \<noteq> i \<longrightarrow>
      tasks (fst (updateTask c taskId d)) ! j = tasks c ! j"
    by (simp add: res)
  ultimately show "\<exists>i < length (tasks c).
              task_id (tasks c ! i) = taskId
              \<and> task_id (tasks (fst (updateTask c taskId d)) ! i) = taskId
              \<and> (\<forall>j < length (tasks c). j \<noteq> i \<longrightarrow>
                    tasks (fst (updateTask c taskId d)) ! j = tasks c ! j)"
    using il ii by blast
qed

text \<open>
  Instances: an unknown id, and an update whose data carries another id.
\<close>

theorem updateTask_frame_witness:
  "updateTask exController ''t9'' (noData\<lparr>d_id := Some ''zz''\<rparr>) = (exController, False)
   \<and> snd (updateTask exController ''t2'' (noData\<lparr>d_id := Some ''zz''\<rparr>)) = True
   \<and> map task_id (tasks (fst (updateTask exController ''t2'' (noData\<lparr>d_id := Some ''zz''\<rparr>))))
       = [''t1'', ''t2'']"
proof -
  have a: "\<forall>t \<in> set (tasks exController). task_id t \<noteq> ''t9''"
    by (simp add: exController_def baseTask_def)
  have b: "\<exists>t \<in> set (tasks exController). task_id t = ''t2''"
    by (simp add: exController_def baseTask_def)
  from updateTask_frame [of exController "''t9''" "noData\<lparr>d_id := Some ''zz''\<rparr>"] a
  have "updateTask exController ''t9'' (noData\<lparr>d_id := Some ''zz''\<rparr>) = (exController, False)"
    by blast
  moreover from updateTask_frame [of exController "''t2''" "noData\<lparr>d_id := Some ''zz''\<rparr>"] b
  have "snd (updateTask exController ''t2'' (noData\<lparr>d_id := Some ''zz''\<rparr>)) = True"
    by blast
  moreover have "map task_id (tasks (fst (updateTask exController ''t2'' (noData\<lparr>d_id := Some ''zz''\<rparr>))))
       = [''t1'', ''t2'']"
    by (simp add: updateTask_def exController_def baseTask_def noData_def spread_def saveTasks_def)
  ultimately show ?thesis by simp
qed

end
